theory Spec2Isabelle
  imports Complex_Main
begin

section \<open>Values exchanged with the server\<close>

text \<open>
  Every reply of the SignalK server is parsed with \<^verbatim>\<open>json.loads\<close>, so the harness
  handles parsed JSON values. Python's \<^verbatim>\<open>None\<close> is \<open>JNull\<close>. Numbers are the reals
  the parsed floats and ints denote; float rounding is not modelled. An object is the list
  of its items, looked up by key.
\<close>

datatype json =
    JNull
  | JBool bool
  | JNum real
  | JStr string
  | JArr "json list"
  | JObj "(string \<times> json) list"

text \<open>Python truthiness (\<^verbatim>\<open>if x:\<close>, \<^verbatim>\<open>not x\<close>) of a parsed value.\<close>

fun truthy :: "json \<Rightarrow> bool" where
  "truthy JNull = False"
| "truthy (JBool b) = b"
| "truthy (JNum x) = (x \<noteq> 0)"
| "truthy (JStr s) = (s \<noteq> [])"
| "truthy (JArr xs) = (xs \<noteq> [])"
| "truthy (JObj kvs) = (kvs \<noteq> [])"

text \<open>The exceptions the harness can meet.\<close>

datatype exn =
    HTTPError nat
  | URLError
  | JSONDecodeError
  | TypeError
  | KeyError
  | AttributeError
  | ValueError
  | TimeoutExpired
  | SystemExit

text \<open>
  The numeric value of an operand of Python arithmetic and ordering: ints, floats and
  bools are numbers (\<^verbatim>\<open>True\<close> is 1), everything else raises \<^verbatim>\<open>TypeError\<close>.
\<close>

fun as_number :: "json \<Rightarrow> exn + real" where
  "as_number (JNum x) = Inr x"
| "as_number (JBool b) = Inr (if b then 1 else 0)"
| "as_number _ = Inl TypeError"

text \<open>\<^verbatim>\<open>d.get(key, default)\<close>: only a dict has \<^verbatim>\<open>get\<close>.\<close>

fun dict_get :: "json \<Rightarrow> string \<Rightarrow> json \<Rightarrow> exn + json" where
  "dict_get (JObj kvs) k dflt = Inr (case map_of kvs k of None \<Rightarrow> dflt | Some v \<Rightarrow> v)"
| "dict_get _ k dflt = Inl AttributeError"

text \<open>\<^verbatim>\<open>d[key]\<close> with a string key: a missing key is a \<^verbatim>\<open>KeyError\<close>, a value that
  is not a dict cannot be indexed by a string.\<close>

fun subscript :: "json \<Rightarrow> string \<Rightarrow> exn + json" where
  "subscript (JObj kvs) k = (case map_of kvs k of None \<Rightarrow> Inl KeyError | Some v \<Rightarrow> Inr v)"
| "subscript _ k = Inl TypeError"

section \<open>The outside world and the session state\<close>

text \<open>
  Time is counted in milliseconds (\<^verbatim>\<open>SAMPLE_INTERVAL = 0.5\<close> is 500). Each outside call
  (an HTTP request, a subprocess) takes the next entry of a script: how long the call
  took, and whether it raised or which body it returned. \<open>Body None\<close> is a body that is
  not JSON. Once the script is used up the network is dead: every call raises at once.
  The trace lists the outside calls and sleeps in the order they were made. The module's
  global counters, the progress file and the files written under \<^verbatim>\<open>raw_data\<close> make
  up the session, which only \<^verbatim>\<open>run_test\<close> changes.
\<close>

datatype reply = Raises exn | Body "json option"

datatype test_type = autoDrop | autoRetrieve

datatype endpoint =
    Login
  | SignalkRoot
  | RodeDeployed
  | DeviceRestart
  | SimConfig nat nat
  | SimState
  | SimReset
  | Position
  | Speed
  | Heading
  | Command test_type
  | ApiGet string
  | StopChainScript
  | ResetAnchorScript

datatype event = Request endpoint | Sleep nat

datatype progress_status = RUNNING | DONE | FAILED

record progress_file =
  p_test_num :: nat
  p_status :: progress_status
  p_completed :: nat
  p_passed :: nat
  p_failed :: nat

record sample =
  timestamp :: nat
  elapsed_sec :: real
  latitude :: json
  longitude :: json
  speed :: json
  heading :: real
  distance_from_start :: real
  simulation_state :: "json option"

record test_metadata =
  test_number :: nat
  test_type_of :: test_type
  wind_speed_kn :: nat
  wind_direction :: nat
  depth_m :: nat
  target_scope :: real
  start_time :: nat
  end_time :: nat
  duration_sec :: real
  sample_count :: nat
  completed :: bool
  timeout :: bool

record summary =
  final_scope :: json
  final_rode :: json
  final_distance :: real
  max_speed :: json
  final_speed :: json

record test_data =
  metadata :: test_metadata
  samples :: "sample list"
  summary_of :: "summary option"

record world =
  script :: "(nat \<times> reply) list"
  clock :: nat
  trace :: "event list"

record session =
  tests_completed :: nat
  tests_passed :: nat
  tests_failed :: nat
  progress :: "progress_file option"
  saved :: "test_data list"

text \<open>One outside call: \<^verbatim>\<open>urllib.request.urlopen(req, timeout=5)\<close> or
  \<^verbatim>\<open>subprocess.run\<close>.\<close>

definition request :: "endpoint \<Rightarrow> world \<Rightarrow> reply \<times> world" where
  "request ep s =
     (case script s of
        [] \<Rightarrow> (Raises URLError, s\<lparr>trace := trace s @ [Request ep]\<rparr>)
      | (d, r) # rest \<Rightarrow>
          (r, s\<lparr>script := rest, clock := clock s + d, trace := trace s @ [Request ep]\<rparr>))"

text \<open>\<^verbatim>\<open>json.loads(response.read())\<close> on the reply of a request.\<close>

fun load_json :: "reply \<Rightarrow> exn + json" where
  "load_json (Raises e) = Inl e"
| "load_json (Body None) = Inl JSONDecodeError"
| "load_json (Body (Some j)) = Inr j"

text \<open>\<^verbatim>\<open>time.sleep\<close>.\<close>

definition sleep :: "nat \<Rightarrow> world \<Rightarrow> world" where
  "sleep ms s = s\<lparr>clock := clock s + ms, trace := trace s @ [Sleep ms]\<rparr>"

section \<open>Remote telemetry client\<close>

text \<open>
  \<^verbatim>\<open>get_auth_token\<close> (the same in \<^verbatim>\<open>overnight_test_runner.py\<close> and
  \<^verbatim>\<open>utils/common.py\<close>, up to the message it prints): post the credentials, return the
  reply's \<^verbatim>\<open>token\<close> entry, and \<^verbatim>\<open>None\<close> on any exception.
\<close>

definition get_auth_token :: "world \<Rightarrow> json \<times> world" where
  "get_auth_token s =
     (case request Login s of (r, s1) \<Rightarrow>
        (case load_json r of
           Inl e \<Rightarrow> (JNull, s1)
         | Inr j \<Rightarrow>
             (case dict_get j ''token'' JNull of
                Inl e \<Rightarrow> (JNull, s1)
              | Inr t \<Rightarrow> (t, s1))))"

text \<open>\<^verbatim>\<open>get_signalk_value(path, token=None)\<close> of \<^verbatim>\<open>utils/common.py\<close>.\<close>

definition get_signalk_value :: "string \<Rightarrow> json \<Rightarrow> world \<Rightarrow> json \<times> world" where
  "get_signalk_value path token s =
     (case (if token = JNull then get_auth_token s else (token, s)) of (tok, s1) \<Rightarrow>
        if \<not> truthy tok then (JNull, s1)
        else
          (case request (ApiGet path) s1 of (r, s2) \<Rightarrow>
             (case load_json r of
                Inl e \<Rightarrow> (JNull, s2)
              | Inr j \<Rightarrow> (j, s2))))"

section \<open>Configuration\<close>

definition TEST_TIMEOUT :: nat where
  "TEST_TIMEOUT = 600000"

definition SAMPLE_INTERVAL :: nat where
  "SAMPLE_INTERVAL = 500"

definition WIND_SPEEDS :: "nat list" where
  "WIND_SPEEDS = [4, 8, 12, 18, 20, 25]"

definition DEPTHS :: "nat list" where
  "DEPTHS = [3, 5, 8, 12]"

definition TEST_TYPES :: "test_type list" where
  "TEST_TYPES = [autoDrop, autoRetrieve]"

definition total_tests :: nat where
  "total_tests = length WIND_SPEEDS * length DEPTHS * length TEST_TYPES"

text \<open>\<^verbatim>\<open>update_progress\<close> overwrites the progress file with the current counters.\<close>

definition update_progress :: "nat \<Rightarrow> progress_status \<Rightarrow> session \<Rightarrow> session" where
  "update_progress test_num status g =
     g\<lparr>progress := Some \<lparr>p_test_num = test_num, p_status = status,
          p_completed = tests_completed g, p_passed = tests_passed g,
          p_failed = tests_failed g\<rparr>\<rparr>"

section \<open>Device health monitor\<close>

text \<open>\<^verbatim>\<open>check_chain_controller\<close>: the device is live when the \<^verbatim>\<open>$source\<close> of the rode
  reading starts with \<^verbatim>\<open>ws.\<close>; any exception means it is not. Only the flag of the
  returned pair is kept, the message is for the log.\<close>

definition check_chain_controller :: "world \<Rightarrow> bool \<times> world" where
  "check_chain_controller s =
     (case get_auth_token s of (token, s1) \<Rightarrow>
        if \<not> truthy token then (False, s1)
        else
          (case request RodeDeployed s1 of (r, s2) \<Rightarrow>
             (case load_json r of
                Inl e \<Rightarrow> (False, s2)
              | Inr data \<Rightarrow>
                  (case dict_get data ''$source'' (JStr []) of
                     Inl e \<Rightarrow> (False, s2)
                   | Inr (JStr source) \<Rightarrow> (take 3 source = ''ws.'', s2)
                   | Inr _ \<Rightarrow> (False, s2)))))"

text \<open>The loop \<^verbatim>\<open>for attempt in range(5)\<close> of \<^verbatim>\<open>restart_chain_controller\<close>, by
  the number of attempts left.\<close>

fun reconnect_attempts :: "nat \<Rightarrow> world \<Rightarrow> bool \<times> world" where
  "reconnect_attempts 0 s = (False, s)"
| "reconnect_attempts (Suc n) s =
     (case check_chain_controller s of (ok, s1) \<Rightarrow>
        if ok then (True, s1) else reconnect_attempts n (sleep 3000 s1))"

definition restart_chain_controller :: "world \<Rightarrow> bool \<times> world" where
  "restart_chain_controller s =
     (case request DeviceRestart s of
        (Raises e, s1) \<Rightarrow> (False, s1)
      | (Body b, s1) \<Rightarrow> reconnect_attempts 5 (sleep 15000 s1))"

definition ensure_chain_controller :: "world \<Rightarrow> bool \<times> world" where
  "ensure_chain_controller s =
     (case check_chain_controller s of (ok, s1) \<Rightarrow>
        if ok then (True, s1) else restart_chain_controller s1)"

section \<open>Reset and environment configuration\<close>

text \<open>\<^verbatim>\<open>subprocess.run\<close> raises only when the script cannot be started or runs over
  its timeout; its exit code is not looked at.\<close>

definition reset_anchor :: "world \<Rightarrow> bool \<times> world" where
  "reset_anchor s =
     (case request ResetAnchorScript s of
        (Raises e, s1) \<Rightarrow> (False, s1)
      | (Body b, s1) \<Rightarrow> (True, sleep 3000 s1))"

definition stop_chain :: "world \<Rightarrow> bool \<times> world" where
  "stop_chain s =
     (case request StopChainScript s of
        (Raises e, s1) \<Rightarrow> (False, s1)
      | (Body b, s1) \<Rightarrow> (True, sleep 1000 s1))"

definition configure_environment :: "nat \<Rightarrow> nat \<Rightarrow> world \<Rightarrow> bool \<times> world" where
  "configure_environment wind depth s =
     (case get_auth_token s of (token, s1) \<Rightarrow>
        if \<not> truthy token then (False, s1)
        else
          (case request (SimConfig wind depth) s1 of (r, s2) \<Rightarrow>
             (case load_json r of
                Inl e \<Rightarrow> (False, s2)
              | Inr result \<Rightarrow> (result \<noteq> JNull, s2))))"

definition reset_simulation :: "world \<Rightarrow> bool \<times> world" where
  "reset_simulation s =
     (case get_auth_token s of (token, s1) \<Rightarrow>
        if \<not> truthy token then (False, s1)
        else
          (case request SimReset s1 of
             (Raises e, s2) \<Rightarrow> (False, s2)
           | (Body b, s2) \<Rightarrow> (True, s2)))"

section \<open>Telemetry reads\<close>

text \<open>Each read returns the parsed body, or \<^verbatim>\<open>None\<close> on any exception. The token
  only goes into the request header.\<close>

definition get_simulation_state :: "json \<Rightarrow> world \<Rightarrow> json \<times> world" where
  "get_simulation_state token s =
     (case request SimState s of (r, s1) \<Rightarrow>
        (case load_json r of Inl e \<Rightarrow> (JNull, s1) | Inr j \<Rightarrow> (j, s1)))"

definition get_position :: "json \<Rightarrow> world \<Rightarrow> json \<times> world" where
  "get_position token s =
     (case request Position s of (r, s1) \<Rightarrow>
        (case load_json r of Inl e \<Rightarrow> (JNull, s1) | Inr j \<Rightarrow> (j, s1)))"

definition get_speed :: "json \<Rightarrow> world \<Rightarrow> json \<times> world" where
  "get_speed token s =
     (case request Speed s of (r, s1) \<Rightarrow>
        (case load_json r of Inl e \<Rightarrow> (JNull, s1) | Inr j \<Rightarrow> (j, s1)))"

text \<open>\<^verbatim>\<open>get_heading\<close> converts radians to degrees: \<^verbatim>\<open>rad * 180 / math.pi\<close>; a reply
  that is not a number raises inside the \<^verbatim>\<open>try\<close> and gives \<^verbatim>\<open>None\<close>.\<close>

definition get_heading :: "json \<Rightarrow> world \<Rightarrow> json \<times> world" where
  "get_heading token s =
     (case request Heading s of (r, s1) \<Rightarrow>
        (case load_json r of
           Inl e \<Rightarrow> (JNull, s1)
         | Inr rad \<Rightarrow>
             (case as_number rad of
                Inl e \<Rightarrow> (JNull, s1)
              | Inr x \<Rightarrow> (JNum (x * 180 / pi), s1))))"

fun exn_name :: "exn \<Rightarrow> string" where
  "exn_name (HTTPError n) = ''HTTPError''"
| "exn_name URLError = ''URLError''"
| "exn_name JSONDecodeError = ''JSONDecodeError''"
| "exn_name TypeError = ''TypeError''"
| "exn_name KeyError = ''KeyError''"
| "exn_name AttributeError = ''AttributeError''"
| "exn_name ValueError = ''ValueError''"
| "exn_name TimeoutExpired = ''TimeoutExpired''"
| "exn_name SystemExit = ''SystemExit''"

text \<open>\<^verbatim>\<open>send_command\<close> returns the parsed reply, or \<^verbatim>\<open>{'error': str(e)}\<close>.\<close>

definition send_command :: "json \<Rightarrow> test_type \<Rightarrow> world \<Rightarrow> json \<times> world" where
  "send_command token command s =
     (case request (Command command) s of (r, s1) \<Rightarrow>
        (case load_json r of
           Inl e \<Rightarrow> (JObj [(''error'', JStr (exn_name e))], s1)
         | Inr j \<Rightarrow> (j, s1)))"

section \<open>Python comparisons used by the summary\<close>

text \<open>Strings compare by code point; the order of UTF-8 bytes is the same order.\<close>

fun str_gt :: "string \<Rightarrow> string \<Rightarrow> bool" where
  "str_gt [] t = False"
| "str_gt (a # as) [] = True"
| "str_gt (a # as) (b # bs) = (if a = b then str_gt as bs else (of_char b :: nat) < of_char a)"

text \<open>Python's \<^verbatim>\<open>==\<close> on parsed values: numbers by value (a bool is 0 or 1), lists
  item by item, dicts as sets of items.\<close>

fun py_eq :: "json \<Rightarrow> json \<Rightarrow> bool"
  and list_eq :: "json list \<Rightarrow> json list \<Rightarrow> bool"
  and items_in :: "(string \<times> json) list \<Rightarrow> (string \<times> json) list \<Rightarrow> bool"
  and lookup_eq :: "json \<Rightarrow> string \<Rightarrow> (string \<times> json) list \<Rightarrow> bool" where
  "py_eq JNull JNull = True"
| "py_eq (JStr a) (JStr b) = (a = b)"
| "py_eq (JArr xs) (JArr ys) = list_eq xs ys"
| "py_eq (JObj a) (JObj b) = (length a = length b \<and> items_in a b)"
| "py_eq a b = (case (as_number a, as_number b) of (Inr x, Inr y) \<Rightarrow> x = y | _ \<Rightarrow> False)"
| "list_eq [] [] = True"
| "list_eq (x # xs) (y # ys) = (py_eq x y \<and> list_eq xs ys)"
| "list_eq xs ys = False"
| "items_in [] b = True"
| "items_in ((k, v) # rest) b = (lookup_eq v k b \<and> items_in rest b)"
| "lookup_eq v k [] = False"
| "lookup_eq v k ((k', w) # b) = (if k = k' then py_eq v w else lookup_eq v k b)"

text \<open>Python's \<^verbatim>\<open>>\<close>: defined between numbers, between strings and between lists
  (at the first pair of items that differ); \<^verbatim>\<open>TypeError\<close> otherwise.\<close>

fun py_gt :: "json \<Rightarrow> json \<Rightarrow> exn + bool"
  and list_gt :: "json list \<Rightarrow> json list \<Rightarrow> exn + bool" where
  "py_gt (JStr a) (JStr b) = Inr (str_gt a b)"
| "py_gt (JArr xs) (JArr ys) = list_gt xs ys"
| "py_gt a b = (case (as_number a, as_number b) of (Inr x, Inr y) \<Rightarrow> Inr (y < x) | _ \<Rightarrow> Inl TypeError)"
| "list_gt [] ys = Inr False"
| "list_gt (x # xs) [] = Inr True"
| "list_gt (x # xs) (y # ys) = (if py_eq x y then list_gt xs ys else py_gt x y)"

text \<open>\<^verbatim>\<open>max(values)\<close>: the first item is the maximum so far, a later item replaces it
  when it compares greater.\<close>

fun max_from :: "json \<Rightarrow> json list \<Rightarrow> exn + json" where
  "max_from m [] = Inr m"
| "max_from m (x # xs) =
     (case py_gt x m of
        Inl e \<Rightarrow> Inl e
      | Inr g \<Rightarrow> max_from (if g then x else m) xs)"

fun py_max :: "json list \<Rightarrow> exn + json" where
  "py_max [] = Inl ValueError"
| "py_max (x # xs) = max_from x xs"

text \<open>Substring test, \<^verbatim>\<open>p in t\<close> on strings.\<close>

fun contains :: "string \<Rightarrow> string \<Rightarrow> bool" where
  "contains p [] = (p = [])"
| "contains p (c # cs) = (take (length p) (c # cs) = p \<or> contains p cs)"

text \<open>\<^verbatim>\<open>'error' in result\<close>.\<close>

fun has_error :: "json \<Rightarrow> exn + bool" where
  "has_error (JObj kvs) = Inr (map_of kvs ''error'' \<noteq> None)"
| "has_error (JStr t) = Inr (contains ''error'' t)"
| "has_error (JArr xs) = Inr (JStr ''error'' \<in> set xs)"
| "has_error _ = Inl TypeError"

section \<open>Sampler\<close>

text \<open>Python's \<^verbatim>\<open>%\<close> on floats, for a positive modulus.\<close>

definition py_mod :: "real \<Rightarrow> real \<Rightarrow> real" where
  "py_mod x m = x - m * of_int \<lfloor>x / m\<rfloor>"

text \<open>The part of \<^verbatim>\<open>collect_sample\<close> after the reads: the derived values and the
  sample dict. Every exception raised here is caught by \<^verbatim>\<open>collect_sample\<close>.\<close>

definition build_sample ::
  "json \<Rightarrow> json \<Rightarrow> json \<Rightarrow> json \<Rightarrow> json \<Rightarrow> nat \<Rightarrow> nat \<Rightarrow> exn + sample" where
  "build_sample pos spd hdg sim_state start_lat start_t t =
     (case subscript pos ''latitude'' of
        Inl e \<Rightarrow> Inl e
      | Inr lat \<Rightarrow>
          (case as_number lat of
             Inl e \<Rightarrow> Inl e
           | Inr la \<Rightarrow>
               (case as_number start_lat of
                  Inl e \<Rightarrow> Inl e
                | Inr la0 \<Rightarrow>
                    (case subscript pos ''longitude'' of
                       Inl e \<Rightarrow> Inl e
                     | Inr lon \<Rightarrow>
                         (case (if truthy hdg
                                then (case as_number hdg of
                                        Inl e \<Rightarrow> Inl e
                                      | Inr h \<Rightarrow> Inr (py_mod h 360))
                                else Inr 0) of
                            Inl e \<Rightarrow> Inl e
                          | Inr h360 \<Rightarrow>
                              Inr \<lparr>timestamp = t,
                                   elapsed_sec = (real t - real start_t) / 1000,
                                   latitude = lat, longitude = lon, speed = spd,
                                   heading = h360,
                                   distance_from_start = (la - la0) / 0.000009,
                                   simulation_state =
                                     (if truthy sim_state then Some sim_state else None)\<rparr>)))))"

definition collect_sample ::
  "json \<Rightarrow> json \<Rightarrow> json \<Rightarrow> json \<Rightarrow> nat \<Rightarrow> world \<Rightarrow> sample option \<times> world" where
  "collect_sample token start_pos start_lat start_lon start_t s =
     (case get_position token s of (pos, s1) \<Rightarrow>
      case get_speed token s1 of (spd, s2) \<Rightarrow>
      case get_heading token s2 of (hdg, s3) \<Rightarrow>
      case get_simulation_state token s3 of (sim_state, s4) \<Rightarrow>
        if \<not> (truthy pos \<and> spd \<noteq> JNull \<and> truthy hdg) then (None, s4)
        else
          (case build_sample pos spd hdg sim_state start_lat start_t (clock s4) of
             Inl e \<Rightarrow> (None, s4)
           | Inr sm \<Rightarrow> (Some sm, s4)))"

text \<open>The block under \<^verbatim>\<open># Check termination conditions\<close>: it looks at the latest
  sample and the test type only. \<open>Inr True\<close> is the \<^verbatim>\<open>break\<close>, \<open>Inl\<close> an exception
  raised by the lookup or the comparison.\<close>

definition check_termination :: "test_type \<Rightarrow> sample list \<Rightarrow> exn + bool" where
  "check_termination tt smps =
     (if smps = [] then Inr False
      else
        (let latest = last smps;
             sim_state = (case simulation_state latest of None \<Rightarrow> JObj [] | Some j \<Rightarrow> j)
         in case tt of
              autoDrop \<Rightarrow>
                (case dict_get sim_state ''scopeRatio'' (JNum 0) of
                   Inl e \<Rightarrow> Inl e
                 | Inr scope \<Rightarrow>
                     (case as_number scope of Inl e \<Rightarrow> Inl e | Inr x \<Rightarrow> Inr (5.0 \<le> x)))
            | autoRetrieve \<Rightarrow>
                (case dict_get sim_state ''rodeDeployed'' (JNum 0) of
                   Inl e \<Rightarrow> Inl e
                 | Inr rode \<Rightarrow>
                     (case as_number rode of Inl e \<Rightarrow> Inl e | Inr x \<Rightarrow> Inr (x \<le> 0.1)))))"

text \<open>The block under \<^verbatim>\<open>if now >= next_sample_time\<close>: one read attempt; a failed
  read adds nothing. It returns the samples and the next sample time.\<close>

definition sample_tick ::
  "json \<Rightarrow> json \<Rightarrow> json \<Rightarrow> json \<Rightarrow> nat \<Rightarrow> nat \<Rightarrow> sample list \<Rightarrow> world
     \<Rightarrow> (sample list \<times> nat) \<times> world" where
  "sample_tick token start_pos start_lat start_lon test_start next_sample_time smps s =
     (if next_sample_time \<le> clock s then
        (case collect_sample token start_pos start_lat start_lon test_start s of
           (None, s1) \<Rightarrow> ((smps, clock s + SAMPLE_INTERVAL), s1)
         | (Some sm, s1) \<Rightarrow> ((smps @ [sm], clock s + SAMPLE_INTERVAL), s1))
      else ((smps, next_sample_time), s))"

text \<open>How the \<^verbatim>\<open>while\<close> loop of \<^verbatim>\<open>run_test\<close> was left: by \<^verbatim>\<open>break\<close>, by its
  condition (the timeout), or by an exception caught around it.\<close>

datatype loop_exit = Completed | TimedOut | Errored exn

function sampling_loop ::
  "test_type \<Rightarrow> json \<Rightarrow> json \<Rightarrow> json \<Rightarrow> json \<Rightarrow> nat \<Rightarrow> nat \<Rightarrow> sample list \<Rightarrow> world
     \<Rightarrow> (loop_exit \<times> sample list) \<times> world" where
  "sampling_loop tt token start_pos start_lat start_lon test_start next_sample_time smps s =
     (if clock s < test_start + TEST_TIMEOUT then
        (case sample_tick token start_pos start_lat start_lon test_start next_sample_time smps s of
           ((smps', next'), s1) \<Rightarrow>
             (case check_termination tt smps' of
                Inl e \<Rightarrow> ((Errored e, smps'), sleep 100 s1)
              | Inr True \<Rightarrow> ((Completed, smps'), sleep 100 s1)
              | Inr False \<Rightarrow>
                  sampling_loop tt token start_pos start_lat start_lon test_start next' smps'
                    (sleep 100 s1)))
      else ((TimedOut, smps), s))"
  by pat_completeness auto

text \<open>The clock never runs backwards during a tick, and every pass of the loop sleeps,
  so the loop ends.\<close>

lemma clock_request: "clock s \<le> clock (snd (request ep s))"
  by (simp add: request_def split: list.splits prod.splits)

lemma clock_get_position: "clock s \<le> clock (snd (get_position tok s))"
  using clock_request [of s Position]
  by (auto simp: get_position_def split: prod.splits sum.splits)

lemma clock_get_speed: "clock s \<le> clock (snd (get_speed tok s))"
  using clock_request [of s Speed]
  by (auto simp: get_speed_def split: prod.splits sum.splits)

lemma clock_get_heading: "clock s \<le> clock (snd (get_heading tok s))"
  using clock_request [of s Heading]
  by (auto simp: get_heading_def split: prod.splits sum.splits)

lemma clock_get_simulation_state: "clock s \<le> clock (snd (get_simulation_state tok s))"
  using clock_request [of s SimState]
  by (auto simp: get_simulation_state_def split: prod.splits sum.splits)

lemma clock_collect_sample:
  "clock s \<le> clock (snd (collect_sample token start_pos start_lat start_lon start_t s))"
proof -
  obtain pos s1 where p: "get_position token s = (pos, s1)" by (cases "get_position token s")
  obtain spd s2 where v: "get_speed token s1 = (spd, s2)" by (cases "get_speed token s1")
  obtain hdg s3 where h: "get_heading token s2 = (hdg, s3)" by (cases "get_heading token s2")
  obtain sim s4 where m: "get_simulation_state token s3 = (sim, s4)"
    by (cases "get_simulation_state token s3")
  have "clock s \<le> clock s1" using clock_get_position [of s token] p by simp
  also have "\<dots> \<le> clock s2" using clock_get_speed [of s1 token] v by simp
  also have "\<dots> \<le> clock s3" using clock_get_heading [of s2 token] h by simp
  also have "\<dots> \<le> clock s4" using clock_get_simulation_state [of s3 token] m by simp
  finally have "clock s \<le> clock s4" .
  moreover have "snd (collect_sample token start_pos start_lat start_lon start_t s) = s4"
    by (simp add: collect_sample_def p v h m split: sum.splits)
  ultimately show ?thesis by simp
qed

lemma clock_sample_tick:
  "sample_tick token start_pos start_lat start_lon test_start nxt smps s = (r, s1)
     \<Longrightarrow> clock s \<le> clock s1"
  using clock_collect_sample [of s token start_pos start_lat start_lon test_start]
  by (auto simp: sample_tick_def split: if_splits option.splits prod.splits)

termination sampling_loop
  by (relation "measure (\<lambda>(tt, token, start_pos, start_lat, start_lon, test_start, nxt, smps, s).
                            test_start + TEST_TIMEOUT - clock s)")
     (auto simp: sleep_def dest!: clock_sample_tick [OF sym])

declare sampling_loop.simps [simp del]

section \<open>Running one test\<close>

text \<open>\<^verbatim>\<open>tests_failed += 1; tests_completed += 1\<close>, before each early \<^verbatim>\<open>return None\<close>.\<close>

definition fail_test :: "session \<Rightarrow> session" where
  "fail_test g = g\<lparr>tests_failed := tests_failed g + 1, tests_completed := tests_completed g + 1\<rparr>"

text \<open>The summary block computed under \<^verbatim>\<open>if samples:\<close>; nothing catches what it
  raises.\<close>

definition summarize :: "sample list \<Rightarrow> exn + summary" where
  "summarize smps =
     (let final_sample = last smps;
          sim_state = (case simulation_state final_sample of None \<Rightarrow> JObj [] | Some j \<Rightarrow> j)
      in case dict_get sim_state ''scopeRatio'' (JNum 0) of
           Inl e \<Rightarrow> Inl e
         | Inr fs \<Rightarrow>
             (case dict_get sim_state ''rodeDeployed'' (JNum 0) of
                Inl e \<Rightarrow> Inl e
              | Inr fr \<Rightarrow>
                  (case py_max (map speed smps) of
                     Inl e \<Rightarrow> Inl e
                   | Inr ms \<Rightarrow>
                       Inr \<lparr>final_scope = fs, final_rode = fr,
                            final_distance = distance_from_start final_sample,
                            max_speed = ms, final_speed = speed final_sample\<rparr>)))"

text \<open>Phase 4 of \<^verbatim>\<open>run_test\<close> and the pass/fail decision: build the record, write it,
  count the test. \<open>t\<close> is the time when the record is built.\<close>

definition save_and_score ::
  "nat \<Rightarrow> nat \<Rightarrow> nat \<Rightarrow> test_type \<Rightarrow> nat \<Rightarrow> nat \<Rightarrow> sample list \<Rightarrow> session
     \<Rightarrow> (exn + test_data option) \<times> session" where
  "save_and_score test_num wind depth tt start_t t smps g =
     (case (if smps \<noteq> [] then map_sum id Some (summarize smps) else Inr None) of
        Inl e \<Rightarrow> (Inl e, g)
      | Inr sm \<Rightarrow>
          (let td = \<lparr>metadata =
                      \<lparr>test_number = test_num, test_type_of = tt, wind_speed_kn = wind,
                       wind_direction = 180, depth_m = depth, target_scope = 5.0,
                       start_time = start_t, end_time = t,
                       duration_sec = (real t - real start_t) / 1000,
                       sample_count = length smps,
                       completed = True,
                       timeout = (length smps = 0)\<rparr>,
                    samples = smps, summary_of = sm\<rparr>;
               g1 = g\<lparr>saved := saved g @ [td]\<rparr>;
               passed = (0 < length smps \<and> sm \<noteq> None);
               g2 = (if passed then g1\<lparr>tests_passed := tests_passed g1 + 1\<rparr>
                     else g1\<lparr>tests_failed := tests_failed g1 + 1\<rparr>);
               g3 = g2\<lparr>tests_completed := tests_completed g2 + 1\<rparr>
           in (Inr (Some td), update_progress test_num (if passed then DONE else FAILED) g3)))"

text \<open>\<^verbatim>\<open>run_test\<close>. \<open>Inr None\<close> is an early \<^verbatim>\<open>return None\<close>, \<open>Inl e\<close> an exception
  that leaves \<^verbatim>\<open>run_test\<close>. Writing the log is taken to succeed and is left out.\<close>

definition run_test ::
  "nat \<Rightarrow> nat \<Rightarrow> nat \<Rightarrow> test_type \<Rightarrow> session \<Rightarrow> world
     \<Rightarrow> (exn + test_data option) \<times> session \<times> world" where
  "run_test test_num wind depth tt g0 s =
     (let g = update_progress test_num RUNNING g0 in
      case get_auth_token s of (token, s1) \<Rightarrow>
      if \<not> truthy token then (Inr None, fail_test g, s1) else
      case ensure_chain_controller s1 of (ok, s2) \<Rightarrow>
      if \<not> ok then (Inr None, fail_test g, s2) else
      case stop_chain s2 of (stopped, s3) \<Rightarrow>
      case (if stopped then reset_anchor s3 else (False, s3)) of (was_reset, s4) \<Rightarrow>
      if \<not> stopped \<or> \<not> was_reset then (Inr None, fail_test g, s4) else
      case configure_environment wind depth s4 of (configured, s5) \<Rightarrow>
      if \<not> configured then (Inr None, fail_test g, s5) else
      case reset_simulation s5 of (sim_reset, s6) \<Rightarrow>
      case get_position token (sleep 1000 s6) of (start_pos, s8) \<Rightarrow>
      if \<not> truthy start_pos then (Inr None, fail_test g, s8) else
      case subscript start_pos ''latitude'' of Inl e \<Rightarrow> (Inl e, g, s8) | Inr start_lat \<Rightarrow>
      case subscript start_pos ''longitude'' of Inl e \<Rightarrow> (Inl e, g, s8) | Inr start_lon \<Rightarrow>
      case send_command token tt s8 of (result, s9) \<Rightarrow>
      case has_error result of
        Inl e \<Rightarrow> (Inl e, g, s9)
      | Inr True \<Rightarrow> (Inr None, fail_test g, s9)
      | Inr False \<Rightarrow>
          (case sampling_loop tt token start_pos start_lat start_lon (clock s9)
                  (clock s9 + SAMPLE_INTERVAL) [] s9 of
             ((ex, smps), s10) \<Rightarrow>
               (case save_and_score test_num wind depth tt (clock (sleep 1000 s6)) (clock s10)
                       smps g of
                  (r, g') \<Rightarrow> (r, g', s10))))"

section \<open>Running the matrix\<close>

definition verify_server :: "world \<Rightarrow> bool \<times> world" where
  "verify_server s =
     (case request SignalkRoot s of
        (Raises e, s1) \<Rightarrow> (False, s1)
      | (Body b, s1) \<Rightarrow> (case get_auth_token s1 of (token, s2) \<Rightarrow> (truthy token, s2)))"

definition test_matrix :: "(nat \<times> nat \<times> test_type) list" where
  "test_matrix =
     concat (map (\<lambda>wind. concat (map (\<lambda>depth. map (\<lambda>tt. (wind, depth, tt)) TEST_TYPES) DEPTHS))
       WIND_SPEEDS)"

text \<open>The loop \<^verbatim>\<open>for wind, depth, test_type in test_matrix\<close>: nothing around
  \<^verbatim>\<open>run_test\<close> catches an exception.\<close>

fun run_tests ::
  "nat \<Rightarrow> (nat \<times> nat \<times> test_type) list \<Rightarrow> session \<Rightarrow> world \<Rightarrow> (exn + unit) \<times> session \<times> world" where
  "run_tests test_num [] g s = (Inr (), g, s)"
| "run_tests test_num ((wind, depth, tt) # rest) g s =
     (case run_test test_num wind depth tt g s of
        (Inl e, g1, s1) \<Rightarrow> (Inl e, g1, s1)
      | (Inr r, g1, s1) \<Rightarrow> run_tests (test_num + 1) rest g1 (sleep 2000 s1))"

text \<open>The counters when the module is loaded.\<close>

definition session_start :: session where
  "session_start =
     \<lparr>tests_completed = 0, tests_passed = 0, tests_failed = 0, progress = None, saved = []\<rparr>"

definition run_all_tests :: "world \<Rightarrow> (exn + unit) \<times> session \<times> world" where
  "run_all_tests s =
     (case verify_server s of (ok, s1) \<Rightarrow>
      if \<not> ok then (Inl SystemExit, session_start, s1) else
      case check_chain_controller s1 of (ready, s2) \<Rightarrow>
      case (if ready then (True, s2) else restart_chain_controller s2) of (ready', s3) \<Rightarrow>
      if \<not> ready' then (Inl SystemExit, session_start, s3)
      else run_tests 1 test_matrix session_start s3)"

section \<open>Specification vocabulary and example worlds\<close>

text \<open>A world at time 0 in which the outside calls get the given replies.\<close>

definition world0 :: "(nat \<times> reply) list \<Rightarrow> world" where
  "world0 scr = \<lparr>script = scr, clock = 0, trace = []\<rparr>"

text \<open>No sample of the list meets the completion condition or makes the check raise.\<close>

definition quiet :: "test_type \<Rightarrow> sample list \<Rightarrow> bool" where
  "quiet tt smps = list_all (\<lambda>sm. check_termination tt [sm] = Inr False) smps"


text \<open>One failed poll of the reconnection loop: the health check, then the 3 s sleep.\<close>

definition failed_poll :: "world \<Rightarrow> world" where
  "failed_poll s = sleep 3000 (snd (check_chain_controller s))"

text \<open>Replies used in the examples.\<close>

definition ok_login :: "nat \<times> reply" where
  "ok_login = (50, Body (Some (JObj [(''token'', JStr ''jwt'')])))"

definition live_rode :: "nat \<times> reply" where
  "live_rode = (50, Body (Some (JObj [(''value'', JNum 0), (''$source'', JStr ''ws.esp32'')])))"

definition stale_rode :: "nat \<times> reply" where
  "stale_rode =
     (50, Body (Some (JObj [(''value'', JNum 0), (''$source'', JStr ''signalk-server'')])))"

definition script_done :: "nat \<times> reply" where
  "script_done = (200, Body None)"

definition config_applied :: "nat \<times> reply" where
  "config_applied = (50, Body (Some (JObj [(''environment'', JObj [(''depth'', JNum 3)])])))"

definition start_position :: json where
  "start_position = JObj [(''latitude'', JNum 43.6), (''longitude'', JNum (-79.4))]"

definition command_accepted :: "nat \<times> reply" where
  "command_accepted =
     (50, Body (Some (JObj [(''state'', JStr ''COMPLETED''), (''statusCode'', JNum 200)])))"

text \<open>The replies of phases 0 to 3 of a test at 8 knots and 3 m when everything answers;
  the parameter is what the simulation reset gets.\<close>

definition prelude :: "reply \<Rightarrow> (nat \<times> reply) list" where
  "prelude sim_reset_reply =
     [ok_login, ok_login, live_rode, script_done, script_done, ok_login, config_applied,
      ok_login, (50, sim_reset_reply), (50, Body (Some start_position)), command_accepted]"

text \<open>The world after these phases, when the sampling loop starts.\<close>

definition after_command :: "test_type \<Rightarrow> (nat \<times> reply) list \<Rightarrow> world" where
  "after_command tt rest =
     \<lparr>script = rest, clock = 5850,
      trace = [Request Login, Request Login, Request RodeDeployed, Request StopChainScript,
               Sleep 1000, Request ResetAnchorScript, Sleep 3000, Request Login,
               Request (SimConfig 8 3), Request Login, Request SimReset, Sleep 1000,
               Request Position, Request (Command tt)]\<rparr>"

text \<open>One tick on which position, speed and heading are read in 50 ms each; the parameter is
  what the read of the simulation state gets.\<close>

definition tick :: "reply \<Rightarrow> (nat \<times> reply) list" where
  "tick sim_reply =
     [(50, Body (Some start_position)), (50, Body (Some (JNum 0.3))),
      (50, Body (Some (JNum 1.5))), (50, sim_reply)]"

text \<open>The sample that such a tick gives when it is the first one after the prelude.\<close>

definition first_sample :: "json option \<Rightarrow> sample" where
  "first_sample sim =
     \<lparr>timestamp = 6550, elapsed_sec = 0.7, latitude = JNum 43.6, longitude = JNum (-79.4),
      speed = JNum 0.3, heading = py_mod (1.5 * 180 / pi) 360, distance_from_start = 0,
      simulation_state = sim\<rparr>"

definition first_tick_events :: "event list" where
  "first_tick_events =
     [Sleep 100, Sleep 100, Sleep 100, Sleep 100, Sleep 100, Request Position,
      Request Speed, Request Heading, Request SimState, Sleep 100]"

text \<open>A tick on which every read runs into its 5 s timeout.\<close>

definition stalled_tick :: "(nat \<times> reply) list" where
  "stalled_tick = [(5000, Raises URLError), (5000, Raises URLError), (5000, Raises URLError),
     (5000, Raises URLError)]"

definition stalled_events :: "event list" where
  "stalled_events = [Request Position, Request Speed, Request Heading, Request SimState, Sleep 100]"

text \<open>Simulation states below and above the target scope.\<close>

definition unconverged :: json where
  "unconverged = JObj [(''scopeRatio'', JNum 2.5)]"

definition converged :: json where
  "converged = JObj [(''scopeRatio'', JNum 5.2)]"

section \<open>Basic facts about outside calls\<close>

lemma request_Cons:
  "script s = (d, r) # rest \<Longrightarrow>
     request ep s = (r, s\<lparr>script := rest, clock := clock s + d, trace := trace s @ [Request ep]\<rparr>)"
  by (simp add: request_def)

lemma trace_request: "trace (snd (request ep s)) = trace s @ [Request ep]"
  by (simp add: request_def split: list.splits prod.splits)

lemma script_request: "script (snd (request ep s)) = tl (script s)"
  by (simp add: request_def split: list.splits prod.splits)

lemma trace_get_auth_token: "trace (snd (get_auth_token s)) = trace s @ [Request Login]"
  using trace_request [of Login s]
  by (auto simp: get_auth_token_def split: prod.splits sum.splits)

lemma script_get_position: "script (snd (get_position tok s)) = tl (script s)"
  using script_request [of Position s]
  by (auto simp: get_position_def split: prod.splits sum.splits)

lemma script_get_speed: "script (snd (get_speed tok s)) = tl (script s)"
  using script_request [of Speed s]
  by (auto simp: get_speed_def split: prod.splits sum.splits)

section \<open>Remote telemetry client: no re-authentication\<close>

lemma get_auth_token_raises:
  "fst (request Login s) = Raises e \<Longrightarrow> fst (get_auth_token s) = JNull"
  by (cases "request Login s") (simp add: get_auth_token_def)

lemma trace_get_position: "trace (snd (get_position tok s)) = trace s @ [Request Position]"
  using trace_request [of Position s]
  by (auto simp: get_position_def split: prod.splits sum.splits)

lemma trace_get_speed: "trace (snd (get_speed tok s)) = trace s @ [Request Speed]"
  using trace_request [of Speed s]
  by (auto simp: get_speed_def split: prod.splits sum.splits)

lemma trace_get_heading: "trace (snd (get_heading tok s)) = trace s @ [Request Heading]"
  using trace_request [of Heading s]
  by (auto simp: get_heading_def split: prod.splits sum.splits)

lemma trace_get_simulation_state:
  "trace (snd (get_simulation_state tok s)) = trace s @ [Request SimState]"
  using trace_request [of SimState s]
  by (auto simp: get_simulation_state_def split: prod.splits sum.splits)

lemma trace_send_command:
  "trace (snd (send_command tok c s)) = trace s @ [Request (Command c)]"
  using trace_request [of "Command c" s]
  by (auto simp: send_command_def split: prod.splits sum.splits)

lemma trace_get_signalk_value:
  "trace (snd (get_signalk_value path token s)) =
     trace s @ (if token = JNull then [Request Login] else []) @
       (if truthy (if token = JNull then fst (get_auth_token s) else token)
        then [Request (ApiGet path)] else [])"
proof (cases "token = JNull")
  case True
  obtain tok s1 where a: "get_auth_token s = (tok, s1)" by (cases "get_auth_token s")
  have t1: "trace s1 = trace s @ [Request Login]" using trace_get_auth_token [of s] a by simp
  show ?thesis
    using True a t1 trace_request [of "ApiGet path" s1]
    by (auto simp: get_signalk_value_def split: prod.splits sum.splits)
next
  case False
  then show ?thesis
    using trace_request [of "ApiGet path" s]
    by (auto simp: get_signalk_value_def split: prod.splits sum.splits)
qed

lemma get_signalk_value_raises:
  assumes "fst (request (ApiGet path) (if token = JNull then snd (get_auth_token s) else s))
             = Raises e"
  shows "fst (get_signalk_value path token s) = JNull"
proof -
  obtain tok s1 where a: "(if token = JNull then get_auth_token s else (token, s)) = (tok, s1)"
    by (cases "if token = JNull then get_auth_token s else (token, s)")
  then have s1: "s1 = (if token = JNull then snd (get_auth_token s) else s)"
    by (auto split: if_splits)
  obtain r s2 where r: "request (ApiGet path) s1 = (r, s2)" by (cases "request (ApiGet path) s1")
  have "r = Raises e" using assms r s1 by simp
  then show ?thesis by (simp add: get_signalk_value_def a r)
qed

lemma get_signalk_value_no_token:
  assumes "\<not> truthy (if token = JNull then fst (get_auth_token s) else token)"
  shows "fst (get_signalk_value path token s) = JNull"
  using assms by (auto simp: get_signalk_value_def split: prod.splits if_splits)

lemma logged_in_call_trace:
  "trace (snd (configure_environment wind depth s)) =
     trace s @ Request Login #
       (if truthy (fst (get_auth_token s)) then [Request (SimConfig wind depth)] else [])"
  "trace (snd (reset_simulation s)) =
     trace s @ Request Login # (if truthy (fst (get_auth_token s)) then [Request SimReset] else [])"
  "trace (snd (check_chain_controller s)) =
     trace s @ Request Login #
       (if truthy (fst (get_auth_token s)) then [Request RodeDeployed] else [])"
proof -
  obtain tok s1 where a: "get_auth_token s = (tok, s1)" by (cases "get_auth_token s")
  have t1: "trace s1 = trace s @ [Request Login]" using trace_get_auth_token [of s] a by simp
  show "trace (snd (configure_environment wind depth s)) =
     trace s @ Request Login #
       (if truthy (fst (get_auth_token s)) then [Request (SimConfig wind depth)] else [])"
    using a t1 trace_request [of "SimConfig wind depth" s1]
    by (auto simp: configure_environment_def split: prod.splits sum.splits)
  show "trace (snd (reset_simulation s)) =
     trace s @ Request Login # (if truthy (fst (get_auth_token s)) then [Request SimReset] else [])"
    using a t1 trace_request [of SimReset s1]
    by (auto simp: reset_simulation_def split: prod.splits reply.splits)
  show "trace (snd (check_chain_controller s)) =
     trace s @ Request Login #
       (if truthy (fst (get_auth_token s)) then [Request RodeDeployed] else [])"
    using a t1 trace_request [of RodeDeployed s1]
    by (auto simp: check_chain_controller_def split: prod.splits sum.splits json.splits)
qed

lemma logged_in_call_raises:
  assumes "fst (request ep (snd (get_auth_token s))) = Raises e"
  shows "ep = SimConfig wind depth \<Longrightarrow> \<not> fst (configure_environment wind depth s)"
    and "ep = SimReset \<Longrightarrow> \<not> fst (reset_simulation s)"
    and "ep = RodeDeployed \<Longrightarrow> \<not> fst (check_chain_controller s)"
proof -
  obtain tok s1 where a: "get_auth_token s = (tok, s1)" by (cases "get_auth_token s")
  obtain r s2 where r: "request ep s1 = (r, s2)" by (cases "request ep s1")
  have e: "r = Raises e" using assms a r by simp
  show "ep = SimConfig wind depth \<Longrightarrow> \<not> fst (configure_environment wind depth s)"
    using a r e by (simp add: configure_environment_def)
  show "ep = SimReset \<Longrightarrow> \<not> fst (reset_simulation s)"
    using a r e by (simp add: reset_simulation_def)
  show "ep = RodeDeployed \<Longrightarrow> \<not> fst (check_chain_controller s)"
    using a r e by (simp add: check_chain_controller_def)
qed

lemma token_call_raises:
  assumes "fst (request ep s) = Raises e"
  shows "ep = Position \<Longrightarrow> fst (get_position tok s) = JNull"
    and "ep = Speed \<Longrightarrow> fst (get_speed tok s) = JNull"
    and "ep = Heading \<Longrightarrow> fst (get_heading tok s) = JNull"
    and "ep = SimState \<Longrightarrow> fst (get_simulation_state tok s) = JNull"
    and "ep = Command c \<Longrightarrow> has_error (fst (send_command tok c s)) = Inr True"
proof -
  obtain r s1 where r: "request ep s = (r, s1)" by (cases "request ep s")
  have e: "r = Raises e" using assms r by simp
  show "ep = Position \<Longrightarrow> fst (get_position tok s) = JNull"
    using r e by (simp add: get_position_def)
  show "ep = Speed \<Longrightarrow> fst (get_speed tok s) = JNull"
    using r e by (simp add: get_speed_def)
  show "ep = Heading \<Longrightarrow> fst (get_heading tok s) = JNull"
    using r e by (simp add: get_heading_def)
  show "ep = SimState \<Longrightarrow> fst (get_simulation_state tok s) = JNull"
    using r e by (simp add: get_simulation_state_def)
  show "ep = Command c \<Longrightarrow> has_error (fst (send_command tok c s)) = Inr True"
    using r e by (simp add: send_command_def)
qed

text \<open>
  C5 (amended). No remote call re-authenticates or retries. \<^verbatim>\<open>get_signalk_value\<close> logs
  in at most once, before its request and only when no token was passed, and it sends its
  request at most once. It returns \<^verbatim>\<open>None\<close> when it has no token after that, and it
  returns \<^verbatim>\<open>None\<close> whenever its request raises, an authorization failure included,
  whether the token was passed by the caller or came from its own login.
  The calls of the runner behave the same way. \<^verbatim>\<open>get_position\<close>, \<^verbatim>\<open>get_speed\<close>,
  \<^verbatim>\<open>get_heading\<close>, \<^verbatim>\<open>get_simulation_state\<close> and \<^verbatim>\<open>send_command\<close> make exactly one
  request and no login, and give \<^verbatim>\<open>None\<close> (\<^verbatim>\<open>send_command\<close>: a dict with an
  \<^verbatim>\<open>error\<close> entry) when it raises. \<^verbatim>\<open>configure_environment\<close>, \<^verbatim>\<open>reset_simulation\<close>
  and \<^verbatim>\<open>check_chain_controller\<close> log in once, make at most one request after it, and
  return \<^verbatim>\<open>False\<close> when that request raises. \<^verbatim>\<open>get_auth_token\<close> itself makes one
  request and returns \<^verbatim>\<open>None\<close> when it raises.
\<close>

theorem remote_calls_never_reauthenticate:
  "trace (snd (get_signalk_value path token s)) =
     trace s @ (if token = JNull then [Request Login] else []) @
       (if truthy (if token = JNull then fst (get_auth_token s) else token)
        then [Request (ApiGet path)] else [])
   \<and> (\<not> truthy (if token = JNull then fst (get_auth_token s) else token)
        \<longrightarrow> fst (get_signalk_value path token s) = JNull)
   \<and> ((\<exists>e. fst (request (ApiGet path) (if token = JNull then snd (get_auth_token s) else s))
             = Raises e)
        \<longrightarrow> fst (get_signalk_value path token s) = JNull)
   \<and> trace (snd (get_auth_token s)) = trace s @ [Request Login]
   \<and> ((\<exists>e. fst (request Login s) = Raises e) \<longrightarrow> fst (get_auth_token s) = JNull)
   \<and> trace (snd (get_position token s)) = trace s @ [Request Position]
   \<and> trace (snd (get_speed token s)) = trace s @ [Request Speed]
   \<and> trace (snd (get_heading token s)) = trace s @ [Request Heading]
   \<and> trace (snd (get_simulation_state token s)) = trace s @ [Request SimState]
   \<and> trace (snd (send_command token c s)) = trace s @ [Request (Command c)]
   \<and> ((\<exists>e. fst (request Position s) = Raises e) \<longrightarrow> fst (get_position token s) = JNull)
   \<and> ((\<exists>e. fst (request Speed s) = Raises e) \<longrightarrow> fst (get_speed token s) = JNull)
   \<and> ((\<exists>e. fst (request Heading s) = Raises e) \<longrightarrow> fst (get_heading token s) = JNull)
   \<and> ((\<exists>e. fst (request SimState s) = Raises e)
        \<longrightarrow> fst (get_simulation_state token s) = JNull)
   \<and> ((\<exists>e. fst (request (Command c) s) = Raises e)
        \<longrightarrow> has_error (fst (send_command token c s)) = Inr True)
   \<and> trace (snd (configure_environment wind depth s)) =
       trace s @ Request Login #
         (if truthy (fst (get_auth_token s)) then [Request (SimConfig wind depth)] else [])
   \<and> trace (snd (reset_simulation s)) =
       trace s @ Request Login #
         (if truthy (fst (get_auth_token s)) then [Request SimReset] else [])
   \<and> trace (snd (check_chain_controller s)) =
       trace s @ Request Login #
         (if truthy (fst (get_auth_token s)) then [Request RodeDeployed] else [])
   \<and> ((\<exists>e. fst (request (SimConfig wind depth) (snd (get_auth_token s))) = Raises e)
        \<longrightarrow> \<not> fst (configure_environment wind depth s))
   \<and> ((\<exists>e. fst (request SimReset (snd (get_auth_token s))) = Raises e)
        \<longrightarrow> \<not> fst (reset_simulation s))
   \<and> ((\<exists>e. fst (request RodeDeployed (snd (get_auth_token s))) = Raises e)
        \<longrightarrow> \<not> fst (check_chain_controller s))"
  unfolding trace_get_signalk_value trace_get_auth_token trace_get_position trace_get_speed
    trace_get_heading trace_get_simulation_state trace_send_command logged_in_call_trace
  by (intro conjI impI refl; (erule exE)?)
    (erule get_signalk_value_no_token get_signalk_value_raises get_auth_token_raises
       token_call_raises [OF _ refl] logged_in_call_raises [OF _ refl])+

theorem remote_calls_never_reauthenticate_witness:
  "fst (get_signalk_value ''navigation/position/value'' JNull
      (world0 [(50, Body (Some (JObj [(''token'', JStr ''jwt'')]))),
               (120, Raises (HTTPError 401))])) = JNull
   \<and> trace (snd (get_signalk_value ''navigation/position/value'' JNull
      (world0 [(50, Body (Some (JObj [(''token'', JStr ''jwt'')]))),
               (120, Raises (HTTPError 401))])))
       = [Request Login, Request (ApiGet ''navigation/position/value'')]
   \<and> fst (get_position JNull
      (world0 [(50, Raises (HTTPError 401)), (120, Raises (HTTPError 401))])) = JNull
   \<and> fst (get_auth_token
      (world0 [(50, Raises (HTTPError 401)), (120, Raises (HTTPError 401))])) = JNull
   \<and> \<not> fst (check_chain_controller
      (world0 [(50, Body (Some (JObj [(''token'', JStr ''jwt'')]))),
               (120, Raises (HTTPError 401))]))"
  using remote_calls_never_reauthenticate [of "''navigation/position/value''" JNull
      "world0 [(50, Body (Some (JObj [(''token'', JStr ''jwt'')]))),
               (120, Raises (HTTPError 401))]"]
    remote_calls_never_reauthenticate [of _ JNull
      "world0 [(50, Raises (HTTPError 401)), (120, Raises (HTTPError 401))]"]
  by (simp add: world0_def get_auth_token_def request_def)

text \<open>
  The claim as first stated fails: the request is refused with status 401, a fresh login
  would succeed and so would a retry, yet the client returns \<^verbatim>\<open>None\<close> after the one
  request and leaves both replies unused.
\<close>

theorem reauth_counterexample:
  "get_signalk_value ''navigation/position/value'' (JStr ''jwt'')
     (world0 [(120, Raises (HTTPError 401)),
              (80, Body (Some (JObj [(''token'', JStr ''jwt2'')]))),
              (60, Body (Some (JObj [(''latitude'', JNum 43.6), (''longitude'', JNum (-79.4))])))])
   = (JNull,
      \<lparr>script = [(80, Body (Some (JObj [(''token'', JStr ''jwt2'')]))),
                 (60, Body (Some (JObj [(''latitude'', JNum 43.6), (''longitude'', JNum (-79.4))])))],
       clock = 120,
       trace = [Request (ApiGet ''navigation/position/value'')]\<rparr>)"
  by (simp add: get_signalk_value_def request_def world0_def)

section \<open>Sampler: what one read produces\<close>

lemma get_heading_zero:
  "script s = (d, Body (Some (JNum 0))) # rest \<Longrightarrow> fst (get_heading tok s) = JNum 0"
  by (simp add: get_heading_def request_Cons)

lemma collect_sample_falsy_heading:
  assumes "fst (get_heading token (snd (get_speed token (snd (get_position token s))))) = JNum 0"
  shows "fst (collect_sample token start_pos start_lat start_lon start_t s) = None"
proof -
  obtain pos s1 where p: "get_position token s = (pos, s1)" by (cases "get_position token s")
  obtain spd s2 where v: "get_speed token s1 = (spd, s2)" by (cases "get_speed token s1")
  obtain hdg s3 where h: "get_heading token s2 = (hdg, s3)" by (cases "get_heading token s2")
  obtain sim s4 where m: "get_simulation_state token s3 = (sim, s4)"
    by (cases "get_simulation_state token s3")
  have "hdg = JNum 0" using assms p v h by simp
  then show ?thesis by (simp add: collect_sample_def p v h m)
qed

text \<open>
  C8. On a tick whose third read, the heading, returns exactly 0, \<^verbatim>\<open>collect_sample\<close>
  returns no sample, whatever the position and speed reads returned: the heading is tested
  for truthiness and 0 degrees is falsy.
\<close>

theorem heading_zero_drops_sample:
  assumes "script s = (d1, r1) # (d2, r2) # (d3, Body (Some (JNum 0))) # rest"
  shows "fst (collect_sample token start_pos start_lat start_lon start_t s) = None"
proof -
  let ?s2 = "snd (get_speed token (snd (get_position token s)))"
  have "script ?s2 = (d3, Body (Some (JNum 0))) # rest"
    using assms by (simp add: script_get_speed script_get_position)
  then have "fst (get_heading token ?s2) = JNum 0" by (rule get_heading_zero)
  then show ?thesis by (rule collect_sample_falsy_heading)
qed

theorem heading_zero_drops_sample_witness:
  "fst (collect_sample (JStr ''jwt'')
          (JObj [(''latitude'', JNum 43.6), (''longitude'', JNum (-79.4))])
          (JNum 43.6) (JNum (-79.4)) 0
          (world0 [(40, Body (Some (JObj [(''latitude'', JNum 43.6), (''longitude'', JNum (-79.4))]))),
                   (40, Body (Some (JNum 0.3))),
                   (40, Body (Some (JNum 0))),
                   (40, Body (Some (JObj [(''scopeRatio'', JNum 2.5)])))])) = None"
  by (rule heading_zero_drops_sample) (simp add: world0_def)

text \<open>The speed is tested with \<^verbatim>\<open>is not None\<close>: a speed of 0 is kept.\<close>

lemma zero_speed_keeps_sample:
  assumes "script s = (d1, Body (Some (JObj [(''latitude'', JNum la), (''longitude'', JNum lo)])))
                      # (d2, Body (Some (JNum 0))) # (d3, Body (Some (JNum h))) # rest"
    and "h \<noteq> 0"
  shows "\<exists>sm. fst (collect_sample token start_pos (JNum la0) start_lon start_t s) = Some sm
              \<and> speed sm = JNum 0"
  using assms
  by (simp add: collect_sample_def get_position_def get_speed_def get_heading_def
      get_simulation_state_def request_Cons build_sample_def
      split: prod.splits sum.splits)

lemma collect_sample_Some:
  assumes "collect_sample token start_pos start_lat start_lon start_t s = (Some sm, s')"
  shows "\<exists>spd hdg sim t.
           build_sample (fst (get_position token s)) spd hdg sim start_lat start_t t = Inr sm"
proof -
  obtain pos s1 where p: "get_position token s = (pos, s1)" by (cases "get_position token s")
  obtain spd s2 where v: "get_speed token s1 = (spd, s2)" by (cases "get_speed token s1")
  obtain hdg s3 where h: "get_heading token s2 = (hdg, s3)" by (cases "get_heading token s2")
  obtain sim s4 where m: "get_simulation_state token s3 = (sim, s4)"
    by (cases "get_simulation_state token s3")
  have "build_sample pos spd hdg sim start_lat start_t (clock s4) = Inr sm"
    using assms by (simp add: collect_sample_def p v h m split: if_splits sum.splits)
  then show ?thesis using p by auto
qed

lemma build_sample_distance:
  assumes "build_sample pos spd hdg sim start_lat start_t t = Inr sm"
  shows "\<exists>lat la la0. subscript pos ''latitude'' = Inr lat \<and> latitude sm = lat \<and>
           as_number lat = Inr la \<and> as_number start_lat = Inr la0 \<and>
           distance_from_start sm = (la - la0) / 0.000009"
  using assms
  by (auto simp: build_sample_def split: sum.splits if_splits)

text \<open>
  C9. For every sample that \<^verbatim>\<open>collect_sample\<close> returns, \<^verbatim>\<open>distance_from_start\<close> is
  (current latitude - start latitude) / 0.000009, where the current latitude is the
  \<^verbatim>\<open>latitude\<close> entry of the position read on this tick, which is also the latitude
  stored in the sample. It is 0 exactly when that latitude is the start latitude, so a
  displacement purely in longitude gives 0, and negative exactly when the boat is south of
  the start. Neither the start position nor the start longitude has any influence on the
  sample.
\<close>

theorem distance_from_start_is_north_displacement:
  assumes "collect_sample token start_pos start_lat start_lon start_t s = (Some sm, s')"
  shows "(\<exists>lat la la0.
            subscript (fst (get_position token s)) ''latitude'' = Inr lat \<and>
            latitude sm = lat \<and> as_number lat = Inr la \<and> as_number start_lat = Inr la0 \<and>
            distance_from_start sm = (la - la0) / 0.000009 \<and>
            (distance_from_start sm = 0 \<longleftrightarrow> la = la0) \<and>
            (distance_from_start sm < 0 \<longleftrightarrow> la < la0))
         \<and> collect_sample token start_pos' start_lat start_lon' start_t s = (Some sm, s')"
proof
  obtain spd hdg sim t where
    b: "build_sample (fst (get_position token s)) spd hdg sim start_lat start_t t = Inr sm"
    using collect_sample_Some [OF assms] by blast
  obtain lat la la0 where l: "subscript (fst (get_position token s)) ''latitude'' = Inr lat"
    "latitude sm = lat" "as_number lat = Inr la" "as_number start_lat = Inr la0"
    "distance_from_start sm = (la - la0) / 0.000009"
    using build_sample_distance [OF b] by blast
  have "((la - la0) / 0.000009 = 0) = (la = la0)" by simp
  moreover have "((la - la0) / 0.000009 < 0) = (la < la0)"
    by (simp add: divide_less_0_iff)
  ultimately show "\<exists>lat la la0.
            subscript (fst (get_position token s)) ''latitude'' = Inr lat \<and>
            latitude sm = lat \<and> as_number lat = Inr la \<and> as_number start_lat = Inr la0 \<and>
            distance_from_start sm = (la - la0) / 0.000009 \<and>
            (distance_from_start sm = 0 \<longleftrightarrow> la = la0) \<and>
            (distance_from_start sm < 0 \<longleftrightarrow> la < la0)"
    using l by auto
next
  show "collect_sample token start_pos' start_lat start_lon' start_t s = (Some sm, s')"
    using assms by (simp add: collect_sample_def)
qed

theorem distance_from_start_witness:
  "\<exists>sm s'. collect_sample (JStr ''jwt'')
          (JObj [(''latitude'', JNum 43.6), (''longitude'', JNum (-79.4))])
          (JNum 43.6) (JNum (-79.4)) 0
          (world0 [(40, Body (Some (JObj [(''latitude'', JNum 43.59991), (''longitude'', JNum (-79.3))]))),
                   (40, Body (Some (JNum 0.3))),
                   (40, Body (Some (JNum 1.5))),
                   (40, Body (Some (JObj [(''scopeRatio'', JNum 2.5)])))]) = (Some sm, s')
     \<and> distance_from_start sm = (43.59991 - 43.6) / 0.000009
     \<and> distance_from_start sm < 0 \<and> latitude sm = JNum 43.59991"
proof -
  let ?w = "world0 [(40, Body (Some (JObj [(''latitude'', JNum 43.59991), (''longitude'', JNum (-79.3))]))),
                   (40, Body (Some (JNum 0.3))),
                   (40, Body (Some (JNum 1.5))),
                   (40, Body (Some (JObj [(''scopeRatio'', JNum 2.5)])))]"
  let ?sp = "JObj [(''latitude'', JNum 43.6), (''longitude'', JNum (-79.4))]"
  obtain sm s' where c: "collect_sample (JStr ''jwt'') ?sp (JNum 43.6) (JNum (-79.4)) 0 ?w = (Some sm, s')"
    by (simp add: collect_sample_def get_position_def get_speed_def get_heading_def
      get_simulation_state_def request_def build_sample_def world0_def)
  have p: "fst (get_position (JStr ''jwt'') ?w)
             = JObj [(''latitude'', JNum 43.59991), (''longitude'', JNum (-79.3))]"
    by (simp add: get_position_def request_def world0_def)
  from distance_from_start_is_north_displacement [OF c, of ?sp "JNum (-79.4)"]
  obtain lat la la0 where "subscript (fst (get_position (JStr ''jwt'') ?w)) ''latitude'' = Inr lat"
    "latitude sm = lat" "as_number lat = Inr la" "as_number (JNum 43.6) = Inr la0"
    "distance_from_start sm = (la - la0) / 0.000009"
    "distance_from_start sm < 0 \<longleftrightarrow> la < la0" by blast
  then have "distance_from_start sm = (43.59991 - 43.6) / 0.000009 \<and> distance_from_start sm < 0
      \<and> latitude sm = JNum 43.59991"
    unfolding p by auto
  then show ?thesis using c by blast
qed

section \<open>Device health monitor: restart and reconnection\<close>

lemma check_chain_controller_live:
  "fst (check_chain_controller s) \<longleftrightarrow>
     truthy (fst (get_auth_token s)) \<and>
     (\<exists>data source. load_json (fst (request RodeDeployed (snd (get_auth_token s)))) = Inr data \<and>
        dict_get data ''$source'' (JStr []) = Inr (JStr source) \<and> take 3 source = ''ws.'')"
proof -
  obtain tok s1 where a: "get_auth_token s = (tok, s1)" by (cases "get_auth_token s")
  obtain r s2 where q: "request RodeDeployed s1 = (r, s2)" by (cases "request RodeDeployed s1")
  show ?thesis
    by (auto simp: check_chain_controller_def a q split: sum.splits json.splits)
qed

lemma reconnect_attempts_iff:
  "fst (reconnect_attempts n s) \<longleftrightarrow>
     (\<exists>k<n. fst (check_chain_controller ((failed_poll ^^ k) s)))"
proof (induction n arbitrary: s)
  case 0
  show ?case by simp
next
  case (Suc n)
  obtain ok s1 where c: "check_chain_controller s = (ok, s1)" by (cases "check_chain_controller s")
  have f: "sleep 3000 s1 = failed_poll s" by (simp add: failed_poll_def c)
  have "fst (reconnect_attempts (Suc n) s) \<longleftrightarrow>
          ok \<or> (\<exists>k<n. fst (check_chain_controller ((failed_poll ^^ k) (failed_poll s))))"
    using Suc.IH [of "failed_poll s"] by (simp add: c f)
  also have "\<dots> \<longleftrightarrow> (\<exists>k<Suc n. fst (check_chain_controller ((failed_poll ^^ k) s)))"
    using c by (auto simp: less_Suc_eq_0_disj funpow_swap1)
  finally show ?case .
qed

lemma reconnect_attempts_success:
  assumes "k < n" "fst (check_chain_controller ((failed_poll ^^ k) s))"
    and "\<forall>j<k. \<not> fst (check_chain_controller ((failed_poll ^^ j) s))"
  shows "reconnect_attempts n s = (True, snd (check_chain_controller ((failed_poll ^^ k) s)))"
  using assms
proof (induction n arbitrary: s k)
  case 0
  then show ?case by simp
next
  case (Suc n)
  obtain ok s1 where c: "check_chain_controller s = (ok, s1)" by (cases "check_chain_controller s")
  show ?case
  proof (cases k)
    case 0
    then show ?thesis using Suc.prems(2) c by simp
  next
    case (Suc k')
    have "\<not> ok" using Suc.prems(3) Suc c by auto
    then have r: "reconnect_attempts (Suc n) s = reconnect_attempts n (failed_poll s)"
      by (simp add: c failed_poll_def)
    have "reconnect_attempts n (failed_poll s)
            = (True, snd (check_chain_controller ((failed_poll ^^ k') (failed_poll s))))"
    proof (rule Suc.IH)
      show "k' < n" using Suc.prems(1) Suc by simp
      show "fst (check_chain_controller ((failed_poll ^^ k') (failed_poll s)))"
        using Suc.prems(2) Suc by (simp add: funpow_swap1)
      show "\<forall>j<k'. \<not> fst (check_chain_controller ((failed_poll ^^ j) (failed_poll s)))"
      proof (intro allI impI)
        fix j assume "j < k'"
        then have "Suc j < k" using Suc by simp
        then have "\<not> fst (check_chain_controller ((failed_poll ^^ Suc j) s))"
          using Suc.prems(3) by blast
        then show "\<not> fst (check_chain_controller ((failed_poll ^^ j) (failed_poll s)))"
          by (simp add: funpow_swap1)
      qed
    qed
    then show ?thesis using r Suc by (simp add: funpow_swap1)
  qed
qed

lemma reconnect_attempts_failure:
  assumes "\<forall>k<n. \<not> fst (check_chain_controller ((failed_poll ^^ k) s))"
  shows "reconnect_attempts n s = (False, (failed_poll ^^ n) s)"
  using assms
proof (induction n arbitrary: s)
  case 0
  show ?case by simp
next
  case (Suc n)
  obtain ok s1 where c: "check_chain_controller s = (ok, s1)" by (cases "check_chain_controller s")
  have "\<not> ok" using Suc.prems c by auto
  then have r: "reconnect_attempts (Suc n) s = reconnect_attempts n (failed_poll s)"
    by (simp add: c failed_poll_def)
  have "\<forall>k<n. \<not> fst (check_chain_controller ((failed_poll ^^ k) (failed_poll s)))"
  proof (intro allI impI)
    fix k assume "k < n"
    then have "\<not> fst (check_chain_controller ((failed_poll ^^ Suc k) s))"
      using Suc.prems by auto
    then show "\<not> fst (check_chain_controller ((failed_poll ^^ k) (failed_poll s)))"
      by (simp add: funpow_swap1)
  qed
  from Suc.IH [OF this] show ?case using r by (simp add: funpow_swap1)
qed

text \<open>
  C6 (amended). The device is reachable exactly when a login gives a token and the rode
  reading is a dict whose \<^verbatim>\<open>$source\<close> is a string starting with \<^verbatim>\<open>ws.\<close>;
  \<^verbatim>\<open>ensure_chain_controller\<close> returns true without a restart in that case and restarts
  the device otherwise. \<^verbatim>\<open>restart_chain_controller\<close> sends one restart request. When
  that request raises it returns false at once, with no settle wait and no poll. Otherwise
  it sleeps 15 s and polls the health check up to 5 times, sleeping 3 s after every failed
  poll: it returns true at the first poll that succeeds, and it returns false after 5
  failed polls, each followed by the 3 s sleep.
\<close>

theorem restart_chain_controller_polls:
  assumes "request DeviceRestart s = (r, s1)"
  shows "(\<forall>e. r = Raises e \<longrightarrow> restart_chain_controller s = (False, s1))
       \<and> (\<forall>b. r = Body b \<longrightarrow>
            (fst (restart_chain_controller s) \<longleftrightarrow>
               (\<exists>k<5. fst (check_chain_controller ((failed_poll ^^ k) (sleep 15000 s1)))))
          \<and> (\<forall>k<5. fst (check_chain_controller ((failed_poll ^^ k) (sleep 15000 s1)))
                    \<and> (\<forall>j<k. \<not> fst (check_chain_controller ((failed_poll ^^ j) (sleep 15000 s1))))
               \<longrightarrow> restart_chain_controller s
                     = (True, snd (check_chain_controller ((failed_poll ^^ k) (sleep 15000 s1)))))
          \<and> ((\<forall>k<5. \<not> fst (check_chain_controller ((failed_poll ^^ k) (sleep 15000 s1))))
               \<longrightarrow> restart_chain_controller s = (False, (failed_poll ^^ 5) (sleep 15000 s1))))
       \<and> ensure_chain_controller s0 =
           (if fst (check_chain_controller s0) then (True, snd (check_chain_controller s0))
            else restart_chain_controller (snd (check_chain_controller s0)))
       \<and> (fst (check_chain_controller s0) \<longleftrightarrow>
            truthy (fst (get_auth_token s0)) \<and>
            (\<exists>data source.
               load_json (fst (request RodeDeployed (snd (get_auth_token s0)))) = Inr data \<and>
               dict_get data ''$source'' (JStr []) = Inr (JStr source) \<and> take 3 source = ''ws.''))"
proof (intro conjI allI impI)
  fix e assume "r = Raises e"
  then show "restart_chain_controller s = (False, s1)"
    using assms by (simp add: restart_chain_controller_def)
next
  fix b assume b: "r = Body b"
  then have r: "restart_chain_controller s = reconnect_attempts 5 (sleep 15000 s1)"
    using assms by (simp add: restart_chain_controller_def)
  show "fst (restart_chain_controller s) \<longleftrightarrow>
          (\<exists>k<5. fst (check_chain_controller ((failed_poll ^^ k) (sleep 15000 s1))))"
    unfolding r by (rule reconnect_attempts_iff)
  show "restart_chain_controller s
          = (True, snd (check_chain_controller ((failed_poll ^^ k) (sleep 15000 s1))))"
    if "k < 5" "fst (check_chain_controller ((failed_poll ^^ k) (sleep 15000 s1)))
                    \<and> (\<forall>j<k. \<not> fst (check_chain_controller ((failed_poll ^^ j) (sleep 15000 s1))))"
    for k
    unfolding r using that by (intro reconnect_attempts_success) auto
  show "restart_chain_controller s = (False, (failed_poll ^^ 5) (sleep 15000 s1))"
    if "\<forall>k<5. \<not> fst (check_chain_controller ((failed_poll ^^ k) (sleep 15000 s1)))"
    unfolding r using that by (rule reconnect_attempts_failure)
next
  show "ensure_chain_controller s0 =
           (if fst (check_chain_controller s0) then (True, snd (check_chain_controller s0))
            else restart_chain_controller (snd (check_chain_controller s0)))"
    by (cases "check_chain_controller s0") (simp add: ensure_chain_controller_def)
next
  show "fst (check_chain_controller s0) \<longleftrightarrow>
            truthy (fst (get_auth_token s0)) \<and>
            (\<exists>data source.
               load_json (fst (request RodeDeployed (snd (get_auth_token s0)))) = Inr data \<and>
               dict_get data ''$source'' (JStr []) = Inr (JStr source) \<and> take 3 source = ''ws.'')"
    by (rule check_chain_controller_live)
qed

theorem restart_polls_witness:
  "restart_chain_controller (world0 [(200, Body None), ok_login, stale_rode, ok_login, live_rode])
     = (True,
        \<lparr>script = [], clock = 18400,
         trace = [Request DeviceRestart, Sleep 15000, Request Login, Request RodeDeployed,
                  Sleep 3000, Request Login, Request RodeDeployed]\<rparr>)"
proof -
  let ?w = "world0 [(200, Body None), ok_login, stale_rode, ok_login, live_rode]"
  let ?s1 = "\<lparr>script = [ok_login, stale_rode, ok_login, live_rode], clock = 200,
             trace = [Request DeviceRestart]\<rparr>"
  let ?end = "\<lparr>script = [], clock = 18400,
         trace = [Request DeviceRestart, Sleep 15000, Request Login, Request RodeDeployed,
                  Sleep 3000, Request Login, Request RodeDeployed]\<rparr>"
  have req: "request DeviceRestart ?w = (Body None, ?s1)"
    by (simp add: request_def world0_def)
  have p0: "\<not> fst (check_chain_controller (sleep 15000 ?s1))"
    by (simp add: check_chain_controller_def get_auth_token_def request_def sleep_def
        ok_login_def stale_rode_def)
  have p1: "check_chain_controller (failed_poll (sleep 15000 ?s1)) = (True, ?end)"
    by (simp add: failed_poll_def check_chain_controller_def get_auth_token_def request_def
        sleep_def ok_login_def stale_rode_def live_rode_def)
  have "fst (check_chain_controller ((failed_poll ^^ 1) (sleep 15000 ?s1)))
        \<and> (\<forall>j<1. \<not> fst (check_chain_controller ((failed_poll ^^ j) (sleep 15000 ?s1))))"
    using p0 p1 by simp
  moreover have "(1::nat) < 5" by simp
  ultimately have "restart_chain_controller ?w
      = (True, snd (check_chain_controller ((failed_poll ^^ 1) (sleep 15000 ?s1))))"
    using restart_chain_controller_polls [OF req] by blast
  then show ?thesis using p1 by simp
qed

text \<open>
  The claim as first stated fails in its last part: false is not reported only after 5
  failed polls. Here the device is not live and the restart request runs into its timeout;
  \<^verbatim>\<open>ensure_chain_controller\<close> reports false after that one request, without the settle
  wait and without a single poll, although a poll would have found the device live.
\<close>

theorem failed_restart_counterexample:
  "ensure_chain_controller
     (world0 [ok_login, (50, Body (Some (JObj [(''value'', JNum 0), (''$source'', JStr ''signalk-server'')]))),
              (5000, Raises URLError), ok_login, live_rode])
   = (False,
      \<lparr>script = [ok_login, live_rode], clock = 5100,
       trace = [Request Login, Request RodeDeployed, Request DeviceRestart]\<rparr>)"
  by (simp add: ensure_chain_controller_def check_chain_controller_def get_auth_token_def
      restart_chain_controller_def request_def world0_def ok_login_def)

section \<open>The sampling loop\<close>

lemma check_termination_last:
  "smps \<noteq> [] \<Longrightarrow> check_termination tt smps = check_termination tt [last smps]"
  by (simp add: check_termination_def)

lemma check_termination_Nil: "check_termination tt [] = Inr False"
  by (simp add: check_termination_def)




lemma quiet_snoc:
  assumes "check_termination tt [last xs] = Inr False" "quiet tt (butlast xs)" "xs \<noteq> []"
  shows "quiet tt xs"
proof -
  have "quiet tt (butlast xs @ [last xs])"
    using assms(1,2) by (simp add: quiet_def)
  then show ?thesis using assms(3) by simp
qed


lemma quiet_last:
  assumes "quiet tt out" "out \<noteq> []"
  shows "check_termination tt out = Inr False"
proof -
  have "last out \<in> set out" using assms(2) by simp
  then have "check_termination tt [last out] = Inr False"
    using assms(1) by (simp add: quiet_def list_all_iff)
  then show ?thesis using check_termination_last [OF assms(2), of tt] by simp
qed

lemma sample_tick_samples:
  assumes "sample_tick tok sp la lo t0 nxt smps s = ((smps', nxt'), s1)"
  shows "smps' = smps \<or> (\<exists>sm. smps' = smps @ [sm])"
  using assms
  by (auto simp: sample_tick_def split: if_splits prod.splits option.splits)

lemma sampling_loop_exit:
  assumes "sampling_loop tt tok sp la lo t0 nxt smps s = ((ex, out), s')"
    and "quiet tt smps"
  shows "(\<exists>new. out = smps @ new) \<and> quiet tt (butlast out) \<and>
         (case ex of
            Completed \<Rightarrow> check_termination tt out = Inr True
          | Errored e \<Rightarrow> check_termination tt out = Inl e
          | TimedOut \<Rightarrow> quiet tt out \<and> t0 + TEST_TIMEOUT \<le> clock s')"
  using assms
proof (induction tt tok sp la lo t0 nxt smps s rule: sampling_loop.induct)
  case (1 tt tok sp la lo t0 nxt smps s)
  show ?case
  proof (cases "clock s < t0 + TEST_TIMEOUT")
    case False
    then have "ex = TimedOut" "out = smps" "s' = s"
      using "1.prems"(1) by (simp_all add: sampling_loop.simps)
    then show ?thesis using False "1.prems"(2)
      by (simp add: quiet_def list_all_iff) (meson in_set_butlastD)
  next
    case True
    obtain smps' nxt' s1 where tick: "sample_tick tok sp la lo t0 nxt smps s = ((smps', nxt'), s1)"
      by (metis surj_pair)
    have q: "quiet tt (butlast smps')" and ext: "\<exists>new. smps' = smps @ new"
      using sample_tick_samples [OF tick] "1.prems"(2)
      by (auto simp: quiet_def list_all_iff dest: in_set_butlastD)
    show ?thesis
    proof (cases "check_termination tt smps'")
      case (Inl e)
      then have "ex = Errored e" "out = smps'"
        using "1.prems"(1) True tick by (simp_all add: sampling_loop.simps)
      then show ?thesis using Inl q ext by simp
    next
      case (Inr b)
      show ?thesis
      proof (cases b)
        case True
        then have "ex = Completed" "out = smps'"
          using "1.prems"(1) \<open>clock s < t0 + TEST_TIMEOUT\<close> tick Inr
          by (simp_all add: sampling_loop.simps)
        then show ?thesis using Inr True q ext by simp
      next
        case False
        have rec: "sampling_loop tt tok sp la lo t0 nxt' smps' (sleep 100 s1) = ((ex, out), s')"
          using "1.prems"(1) \<open>clock s < t0 + TEST_TIMEOUT\<close> tick Inr False
          by (simp add: sampling_loop.simps)
        have q': "quiet tt smps'"
        proof (cases "smps' = []")
          case True
          then show ?thesis by (simp add: quiet_def)
        next
          case nonempty: False
          have "check_termination tt [last smps'] = Inr False"
            using check_termination_last [OF nonempty, of tt] Inr False by simp
          then show ?thesis using q nonempty by (rule_tac quiet_snoc)
        qed
        have ih: "(\<exists>new. out = smps' @ new) \<and> quiet tt (butlast out) \<and>
         (case ex of
            Completed \<Rightarrow> check_termination tt out = Inr True
          | Errored e \<Rightarrow> check_termination tt out = Inl e
          | TimedOut \<Rightarrow> quiet tt out \<and> t0 + TEST_TIMEOUT \<le> clock s')"
          using "1.IH" [OF \<open>clock s < t0 + TEST_TIMEOUT\<close> tick [symmetric] refl Inr _ rec q'] False
          by simp
        then show ?thesis using ext by auto
      qed
    qed
  qed
qed

lemma loop_exit_facts:
  assumes "sampling_loop tt tok sp la lo t0 nxt [] s = ((ex, out), s')"
  shows "quiet tt (butlast out)"
    and "ex = Completed \<Longrightarrow> check_termination tt out = Inr True"
    and "ex = Errored e \<Longrightarrow> check_termination tt out = Inl e"
    and "ex = TimedOut \<Longrightarrow> quiet tt out"
    and "ex = TimedOut \<Longrightarrow> t0 + TEST_TIMEOUT \<le> clock s'"
proof -
  have q0: "quiet tt []" by (simp add: quiet_def)
  note x = sampling_loop_exit [OF assms q0]
  show "quiet tt (butlast out)" using x by simp
  show "ex = Completed \<Longrightarrow> check_termination tt out = Inr True" using x by simp
  show "ex = Errored e \<Longrightarrow> check_termination tt out = Inl e" using x by simp
  show "ex = TimedOut \<Longrightarrow> quiet tt out" using x by simp
  show "ex = TimedOut \<Longrightarrow> t0 + TEST_TIMEOUT \<le> clock s'" using x by simp
qed

lemma loop_exit_check:
  assumes "sampling_loop tt tok sp la lo t0 nxt [] s = ((ex, out), s')"
  shows "check_termination tt out =
           (case ex of Completed \<Rightarrow> Inr True | Errored e \<Rightarrow> Inl e | TimedOut \<Rightarrow> Inr False)"
proof (cases ex)
  case Completed
  then show ?thesis using loop_exit_facts(2) [OF assms] by simp
next
  case TimedOut
  then have q: "quiet tt out" using loop_exit_facts(4) [OF assms] by simp
  show ?thesis
  proof (cases "out = []")
    case True
    then show ?thesis using TimedOut check_termination_Nil by simp
  next
    case False
    then show ?thesis using TimedOut quiet_last [OF q] by simp
  qed
next
  case (Errored e)
  then show ?thesis using loop_exit_facts(3) [OF assms] by simp
qed

lemma sampling_loop_Cons:
  "sampling_loop tt tok sp la lo t0 nxt smps \<lparr>script = x # xs, clock = c, trace = tr\<rparr> =
     (if c < t0 + TEST_TIMEOUT then
        (case sample_tick tok sp la lo t0 nxt smps \<lparr>script = x # xs, clock = c, trace = tr\<rparr> of
           ((smps', next'), s1) \<Rightarrow>
             (case check_termination tt smps' of
                Inl e \<Rightarrow> ((Errored e, smps'), sleep 100 s1)
              | Inr True \<Rightarrow> ((Completed, smps'), sleep 100 s1)
              | Inr False \<Rightarrow> sampling_loop tt tok sp la lo t0 next' smps' (sleep 100 s1)))
      else ((TimedOut, smps), \<lparr>script = x # xs, clock = c, trace = tr\<rparr>))"
  by (subst sampling_loop.simps) simp

lemma sampling_loop_wait:
  assumes "check_termination tt smps = Inr False" "c < nxt" "c < t0 + TEST_TIMEOUT"
  shows "sampling_loop tt tok sp la lo t0 nxt smps \<lparr>script = scr, clock = c, trace = tr\<rparr>
       = sampling_loop tt tok sp la lo t0 nxt smps
           \<lparr>script = scr, clock = c + 100, trace = tr @ [Sleep 100]\<rparr>"
  using assms
  by (subst sampling_loop.simps) (simp add: sample_tick_def sleep_def)

lemma sampling_loop_timeout:
  assumes "t0 + TEST_TIMEOUT \<le> clock s"
  shows "sampling_loop tt tok sp la lo t0 nxt smps s = ((TimedOut, smps), s)"
  using assms
  by (subst sampling_loop.simps) simp

text \<open>On a dead network every read fails at once and the loop runs to the timeout.\<close>

lemma script_get_heading: "script (snd (get_heading tok s)) = tl (script s)"
  using script_request [of Heading s]
  by (auto simp: get_heading_def split: prod.splits sum.splits)

lemma script_get_simulation_state: "script (snd (get_simulation_state tok s)) = tl (script s)"
  using script_request [of SimState s]
  by (auto simp: get_simulation_state_def split: prod.splits sum.splits)

lemma dead_get_position: "script s = [] \<Longrightarrow> fst (get_position tok s) = JNull"
  by (simp add: get_position_def request_def)

lemma dead_collect_sample:
  assumes "script s = []"
  shows "fst (collect_sample tok sp la lo t0 s) = None
       \<and> script (snd (collect_sample tok sp la lo t0 s)) = []"
proof -
  obtain pos s1 where p: "get_position tok s = (pos, s1)" by (cases "get_position tok s")
  obtain spd s2 where v: "get_speed tok s1 = (spd, s2)" by (cases "get_speed tok s1")
  obtain hdg s3 where h: "get_heading tok s2 = (hdg, s3)" by (cases "get_heading tok s2")
  obtain sim s4 where m: "get_simulation_state tok s3 = (sim, s4)"
    by (cases "get_simulation_state tok s3")
  have "pos = JNull" using dead_get_position [OF assms, of tok] p by simp
  moreover have "script s1 = []" using script_get_position [of tok s] p assms by simp
  then have "script s2 = []" using script_get_speed [of tok s1] v by simp
  then have "script s3 = []" using script_get_heading [of tok s2] h by simp
  then have "script s4 = []" using script_get_simulation_state [of tok s3] m by simp
  ultimately show ?thesis by (simp add: collect_sample_def p v h m)
qed

lemma dead_sample_tick:
  assumes "script s = []"
  shows "fst (fst (sample_tick tok sp la lo t0 nxt smps s)) = smps
       \<and> script (snd (sample_tick tok sp la lo t0 nxt smps s)) = []"
  using assms dead_collect_sample [OF assms, of tok sp la lo t0]
  by (auto simp: sample_tick_def split: prod.splits option.splits)

lemma dead_network_times_out:
  assumes "script s = []" "check_termination tt smps = Inr False"
  shows "fst (sampling_loop tt tok sp la lo t0 nxt smps s) = (TimedOut, smps)"
  using assms
proof (induction tt tok sp la lo t0 nxt smps s rule: sampling_loop.induct)
  case (1 tt tok sp la lo t0 nxt smps s)
  show ?case
  proof (cases "clock s < t0 + TEST_TIMEOUT")
    case False
    then show ?thesis by (simp add: sampling_loop.simps)
  next
    case True
    obtain smps' nxt' s1 where tick: "sample_tick tok sp la lo t0 nxt smps s = ((smps', nxt'), s1)"
      by (metis surj_pair)
    have k: "smps' = smps" "script s1 = []"
      using dead_sample_tick [OF "1.prems"(1), of tok sp la lo t0 nxt smps] tick by simp_all
    have "script (sleep 100 s1) = []" using k by (simp add: sleep_def)
    then have "fst (sampling_loop tt tok sp la lo t0 nxt' smps' (sleep 100 s1)) = (TimedOut, smps')"
      using "1.IH" [OF True tick [symmetric] refl, of False] "1.prems"(2) k by simp
    then show ?thesis
      using True tick k "1.prems"(2)
      by (subst sampling_loop.simps) simp
  qed
qed

section \<open>Scoring of one run\<close>

lemma counters_update_progress [simp]:
  "tests_completed (update_progress n st g) = tests_completed g"
  "tests_passed (update_progress n st g) = tests_passed g"
  "tests_failed (update_progress n st g) = tests_failed g"
  "saved (update_progress n st g) = saved g"
  by (simp_all add: update_progress_def)

lemma map_sum_Some_not_None: "map_sum id Some x \<noteq> Inr None"
  by (cases x) auto

lemma save_and_score_cases:
  assumes "save_and_score n wind depth tt start_t t smps g = (r, g')"
  shows "(\<exists>e. r = Inl e \<and> g' = g \<and> smps \<noteq> []) \<or>
         (\<exists>td. r = Inr (Some td) \<and> samples td = smps \<and>
            completed (metadata td) \<and> timeout (metadata td) = (smps = []) \<and>
            sample_count (metadata td) = length smps \<and>
            start_time (metadata td) = start_t \<and> end_time (metadata td) = t \<and>
            duration_sec (metadata td) = (real t - real start_t) / 1000 \<and>
            saved g' = saved g @ [td] \<and>
            tests_completed g' = tests_completed g + 1 \<and>
            tests_passed g' = tests_passed g + (if smps = [] then 0 else 1) \<and>
            tests_failed g' = tests_failed g + (if smps = [] then 1 else 0) \<and>
            map_option p_status (progress g') = Some (if smps = [] then FAILED else DONE))"
  using assms map_sum_Some_not_None [of "summarize smps"]
  by (auto simp: save_and_score_def Let_def update_progress_def split: sum.splits if_splits)

lemma clock_send_command: "clock s \<le> clock (snd (send_command tok c s))"
  using clock_request [of s "Command c"]
  by (auto simp: send_command_def split: prod.splits sum.splits)

lemma run_test_cases:
  assumes "run_test n wind depth tt g0 s = (r, g', s')"
  shows "(r = Inr None \<and> g' = fail_test (update_progress n RUNNING g0)) \<or>
         (\<exists>e. r = Inl e \<and> g' = update_progress n RUNNING g0) \<or>
         (\<exists>tok sp la lo t0 s9 ex smps start_t.
            sampling_loop tt tok sp la lo t0 (t0 + SAMPLE_INTERVAL) [] s9 = ((ex, smps), s') \<and>
            start_t \<le> t0 \<and>
            save_and_score n wind depth tt start_t (clock s') smps (update_progress n RUNNING g0)
              = (r, g'))"
proof -
  let ?g = "update_progress n RUNNING g0"
  obtain token s1 where a: "get_auth_token s = (token, s1)" by (cases "get_auth_token s")
  obtain ok s2 where b: "ensure_chain_controller s1 = (ok, s2)"
    by (cases "ensure_chain_controller s1")
  obtain stopped s3 where c: "stop_chain s2 = (stopped, s3)" by (cases "stop_chain s2")
  obtain was_reset s4 where d: "(if stopped then reset_anchor s3 else (False, s3)) = (was_reset, s4)"
    by (cases "if stopped then reset_anchor s3 else (False, s3)")
  obtain configured s5 where e: "configure_environment wind depth s4 = (configured, s5)"
    by (cases "configure_environment wind depth s4")
  obtain sim_reset s6 where f: "reset_simulation s5 = (sim_reset, s6)"
    by (cases "reset_simulation s5")
  obtain start_pos s8 where h: "get_position token (sleep 1000 s6) = (start_pos, s8)"
    by (cases "get_position token (sleep 1000 s6)")
  obtain result s9 where i: "send_command token tt s8 = (result, s9)"
    by (cases "send_command token tt s8")
  have clk: "clock (sleep 1000 s6) \<le> clock s9"
    using clock_get_position [of "sleep 1000 s6" token] h clock_send_command [of s8 token tt] i
    by simp
  note eqs = a b c d e f h i
  show ?thesis
  proof (cases "truthy token \<and> ok \<and> stopped \<and> was_reset \<and> configured \<and> truthy start_pos")
    case False
    then have "r = Inr None \<and> g' = fail_test ?g"
      using assms eqs by (auto simp: run_test_def Let_def split: if_splits)
    then show ?thesis by simp
  next
    case True
    show ?thesis
    proof (cases "subscript start_pos ''latitude''")
      case (Inl x)
      then have "r = Inl x \<and> g' = ?g"
        using assms eqs True by (simp add: run_test_def Let_def)
      then show ?thesis by simp
    next
      case la: (Inr start_lat)
      show ?thesis
      proof (cases "subscript start_pos ''longitude''")
        case (Inl x)
        then have "r = Inl x \<and> g' = ?g"
          using assms eqs True la by (simp add: run_test_def Let_def)
        then show ?thesis by simp
      next
        case lo: (Inr start_lon)
        show ?thesis
        proof (cases "has_error result")
          case (Inl x)
          then have "r = Inl x \<and> g' = ?g"
            using assms eqs True la lo by (simp add: run_test_def Let_def)
          then show ?thesis by simp
        next
          case (Inr err)
          show ?thesis
          proof (cases err)
            case True
            then have "r = Inr None \<and> g' = fail_test ?g"
              using assms eqs \<open>truthy token \<and> ok \<and> stopped \<and> was_reset \<and> configured \<and> truthy start_pos\<close>
                la lo Inr by (simp add: run_test_def Let_def)
            then show ?thesis by simp
          next
            case False
            obtain ex smps s10 where l: "sampling_loop tt token start_pos start_lat start_lon
                (clock s9) (clock s9 + SAMPLE_INTERVAL) [] s9 = ((ex, smps), s10)"
              by (metis surj_pair)
            obtain r' g'' where sc: "save_and_score n wind depth tt (clock (sleep 1000 s6))
                (clock s10) smps ?g = (r', g'')"
              by (metis surj_pair)
            have "r = r' \<and> g' = g'' \<and> s' = s10"
              using assms eqs \<open>truthy token \<and> ok \<and> stopped \<and> was_reset \<and> configured \<and> truthy start_pos\<close>
                la lo Inr False l sc by (simp add: run_test_def Let_def)
            then show ?thesis using l sc clk by blast
          qed
        qed
      qed
    qed
  qed
qed


lemma run_test_returns:
  assumes "run_test n wind depth tt g s = (Inr r, g', s')"
  shows "tests_completed g' = tests_completed g + 1 \<and>
         (case r of
            None \<Rightarrow> tests_passed g' = tests_passed g \<and> tests_failed g' = tests_failed g + 1
                     \<and> map_option p_status (progress g') = Some RUNNING
                     \<and> saved g' = saved g
          | Some td \<Rightarrow>
              (\<exists>tok sp la lo t0 s9 ex.
                 sampling_loop tt tok sp la lo t0 (t0 + SAMPLE_INTERVAL) [] s9
                   = ((ex, samples td), s')) \<and>
              tests_passed g' = tests_passed g + (if samples td = [] then 0 else 1) \<and>
              tests_failed g' = tests_failed g + (if samples td = [] then 1 else 0) \<and>
              map_option p_status (progress g') = Some (if samples td = [] then FAILED else DONE) \<and>
              saved g' = saved g @ [td])"
proof -
  from run_test_cases [OF assms]
  consider (failed) "r = None" "g' = fail_test (update_progress n RUNNING g)"
    | (sampled) tok sp la lo t0 s9 ex start_t smps where
        "sampling_loop tt tok sp la lo t0 (t0 + SAMPLE_INTERVAL) [] s9 = ((ex, smps), s')"
        "save_and_score n wind depth tt start_t (clock s') smps (update_progress n RUNNING g)
           = (Inr r, g')"
    by blast
  then show ?thesis
  proof cases
    case failed
    then show ?thesis by (simp add: fail_test_def update_progress_def)
  next
    case sampled
    from save_and_score_cases [OF sampled(2)]
    obtain td where td: "r = Some td" "samples td = smps"
      "saved g' = saved g @ [td]"
      "tests_completed g' = tests_completed g + 1"
      "tests_passed g' = tests_passed g + (if smps = [] then 0 else 1)"
      "tests_failed g' = tests_failed g + (if smps = [] then 1 else 0)"
      "map_option p_status (progress g') = Some (if smps = [] then FAILED else DONE)"
      by auto
    have "\<exists>tok sp la lo t0 s9 ex.
            sampling_loop tt tok sp la lo t0 (t0 + SAMPLE_INTERVAL) [] s9 = ((ex, samples td), s')"
      using sampled(1) td(2) by blast
    then show ?thesis using td by simp
  qed
qed

lemma run_test_raises:
  assumes "run_test n wind depth tt g s = (Inl e, g', s')"
  shows "tests_completed g' = tests_completed g \<and> tests_passed g' = tests_passed g \<and>
         tests_failed g' = tests_failed g \<and> saved g' = saved g"
proof -
  from run_test_cases [OF assms]
  consider (raised) "g' = update_progress n RUNNING g"
    | (sampled) start_t t smps where
        "save_and_score n wind depth tt start_t t smps (update_progress n RUNNING g) = (Inl e, g')"
    by blast
  then show ?thesis
  proof cases
    case raised
    then show ?thesis by simp
  next
    case sampled
    from save_and_score_cases [OF sampled] show ?thesis by auto
  qed
qed


lemma run_test_counters:
  assumes "run_test n wind depth tt g s = (r, g', s')"
    and "tests_completed g = tests_passed g + tests_failed g"
  shows "tests_completed g' = tests_passed g' + tests_failed g' \<and>
         tests_completed g' \<le> tests_completed g + 1"
proof (cases r)
  case (Inl e)
  then show ?thesis using run_test_raises [of n wind depth tt g s e g' s'] assms by simp
next
  case (Inr x)
  then show ?thesis using run_test_returns [of n wind depth tt g s x g' s'] assms
    by (cases x) (auto split: if_splits)
qed

lemma run_tests_counters:
  assumes "tests_completed g = tests_passed g + tests_failed g"
  shows "tests_completed (fst (snd (run_tests n cs g s)))
           = tests_passed (fst (snd (run_tests n cs g s))) + tests_failed (fst (snd (run_tests n cs g s)))
       \<and> tests_completed (fst (snd (run_tests n cs g s))) \<le> tests_completed g + length cs"
  using assms
proof (induction cs arbitrary: n g s)
  case Nil
  then show ?case by simp
next
  case (Cons c cs)
  obtain wind depth tt where c: "c = (wind, depth, tt)" by (cases c)
  obtain r g1 s1 where rt: "run_test n wind depth tt g s = (r, g1, s1)" by (metis surj_pair)
  have inv: "tests_completed g1 = tests_passed g1 + tests_failed g1"
    "tests_completed g1 \<le> tests_completed g + 1"
    using run_test_counters [OF rt Cons.prems] by simp_all
  show ?case
  proof (cases r)
    case (Inl e)
    then show ?thesis using rt c inv by simp
  next
    case (Inr x)
    then have "run_tests n (c # cs) g s = run_tests (n + 1) cs g1 (sleep 2000 s1)"
      using rt c by simp
    then show ?thesis using Cons.IH [OF inv(1), of "n + 1" "sleep 2000 s1"] inv(2) by simp
  qed
qed

lemma length_test_matrix: "length test_matrix = total_tests"
  by (simp add: test_matrix_def total_tests_def WIND_SPEEDS_def DEPTHS_def TEST_TYPES_def)

lemma run_all_tests_counters:
  "tests_completed (fst (snd (run_all_tests s)))
     = tests_passed (fst (snd (run_all_tests s))) + tests_failed (fst (snd (run_all_tests s)))
   \<and> tests_completed (fst (snd (run_all_tests s))) \<le> total_tests"
proof -
  have z: "tests_completed session_start = tests_passed session_start + tests_failed session_start"
    by (simp add: session_start_def)
  have "fst (snd (run_all_tests s)) = session_start
        \<or> (\<exists>s3. run_all_tests s = run_tests 1 test_matrix session_start s3)"
    by (auto simp: run_all_tests_def split: prod.splits if_splits)
  then show ?thesis
  proof
    assume "fst (snd (run_all_tests s)) = session_start"
    then show ?thesis by (simp add: session_start_def)
  next
    assume "\<exists>s3. run_all_tests s = run_tests 1 test_matrix session_start s3"
    then obtain s3 where "run_all_tests s = run_tests 1 test_matrix session_start s3" by blast
    then show ?thesis
      using run_tests_counters [OF z, of 1 test_matrix s3] length_test_matrix
      by (simp add: session_start_def)
  qed
qed

lemma run_tests_proceeds:
  assumes "run_test n wind depth tt g s = (Inr r, g', s')"
  shows "run_tests n ((wind, depth, tt) # rest) g s = run_tests (n + 1) rest g' (sleep 2000 s')"
  using assms by simp

section \<open>Example runs\<close>

lemmas prelude_defs = run_test_def get_auth_token_def request_def ensure_chain_controller_def
  check_chain_controller_def stop_chain_def reset_anchor_def configure_environment_def
  reset_simulation_def get_position_def send_command_def sleep_def
  SAMPLE_INTERVAL_def Let_def

lemmas fixture_defs = ok_login_def live_rode_def script_done_def config_applied_def
  start_position_def command_accepted_def prelude_def world0_def after_command_def

lemma run_test_after_prelude:
  "run_test n 8 3 tt g (world0 (prelude r @ rest)) =
     (case sampling_loop tt (JStr ''jwt'') start_position (JNum 43.6) (JNum (-79.4)) 5850 6350 []
             (after_command tt rest) of
        ((ex, smps), s10) \<Rightarrow>
          (case save_and_score n 8 3 tt 5750 (clock s10) smps (update_progress n RUNNING g) of
             (r', g') \<Rightarrow> (r', g', s10)))"
  by (cases r) (simp_all add: fixture_defs prelude_defs)

lemmas loop_defs = sampling_loop_Cons sample_tick_def collect_sample_def build_sample_def
  check_termination_def get_position_def get_speed_def get_heading_def
  get_simulation_state_def request_def sleep_def TEST_TIMEOUT_def SAMPLE_INTERVAL_def
  after_command_def tick_def start_position_def first_sample_def first_tick_events_def

lemma first_tick_converged:
  "5 \<le> x \<Longrightarrow>
   sampling_loop autoDrop (JStr ''jwt'') start_position (JNum 43.6) (JNum (-79.4)) 5850 6350 []
     (after_command autoDrop (tick (Body (Some (JObj [(''scopeRatio'', JNum x)]))) @ rest))
   = ((Completed, [first_sample (Some (JObj [(''scopeRatio'', JNum x)]))]),
      \<lparr>script = rest, clock = 6650,
       trace = trace (after_command autoDrop []) @ first_tick_events\<rparr>)"
  by (simp add: loop_defs)

lemma first_tick_unconverged:
  "x < 5 \<Longrightarrow>
   sampling_loop autoDrop (JStr ''jwt'') start_position (JNum 43.6) (JNum (-79.4)) 5850 6350 []
     (after_command autoDrop (tick (Body (Some (JObj [(''scopeRatio'', JNum x)]))) @ rest))
   = sampling_loop autoDrop (JStr ''jwt'') start_position (JNum 43.6) (JNum (-79.4)) 5850 6850
       [first_sample (Some (JObj [(''scopeRatio'', JNum x)]))]
       \<lparr>script = rest, clock = 6650,
        trace = trace (after_command autoDrop []) @ first_tick_events\<rparr>"
  by (simp add: loop_defs)


lemma stalled_tick_step:
  assumes "check_termination tt smps = Inr False" "nxt \<le> c" "c < t0 + TEST_TIMEOUT"
  shows "sampling_loop tt tok sp la lo t0 nxt smps
           \<lparr>script = stalled_tick @ rest, clock = c, trace = tr\<rparr>
       = sampling_loop tt tok sp la lo t0 (c + 500) smps
           \<lparr>script = rest, clock = c + 20100, trace = tr @ stalled_events\<rparr>"
  using assms
  by (subst sampling_loop.simps)
     (simp add: stalled_tick_def stalled_events_def sample_tick_def collect_sample_def
        get_position_def get_speed_def get_heading_def get_simulation_state_def request_def
        sleep_def SAMPLE_INTERVAL_def add.commute)

lemma stalled_ticks:
  assumes "check_termination tt smps = Inr False" "nxt \<le> c" "c + k * 20100 < t0 + TEST_TIMEOUT + 20100"
  shows "\<exists>nxt'. sampling_loop tt tok sp la lo t0 nxt smps
           \<lparr>script = concat (replicate k stalled_tick) @ rest, clock = c, trace = tr\<rparr>
       = sampling_loop tt tok sp la lo t0 nxt' smps
           \<lparr>script = rest, clock = c + k * 20100,
            trace = tr @ concat (replicate k stalled_events)\<rparr>"
  using assms(2,3)
proof (induction k arbitrary: c nxt tr)
  case 0
  show ?case by auto
next
  case (Suc k)
  have lt: "c < t0 + TEST_TIMEOUT" using Suc.prems(2) by simp
  have step: "sampling_loop tt tok sp la lo t0 nxt smps
           \<lparr>script = stalled_tick @ (concat (replicate k stalled_tick) @ rest), clock = c, trace = tr\<rparr>
       = sampling_loop tt tok sp la lo t0 (c + 500) smps
           \<lparr>script = concat (replicate k stalled_tick) @ rest, clock = c + 20100,
            trace = tr @ stalled_events\<rparr>"
    by (rule stalled_tick_step [OF assms(1) Suc.prems(1) lt])
  have "c + 500 \<le> c + 20100" by simp
  moreover have "c + 20100 + k * 20100 < t0 + TEST_TIMEOUT + 20100" using Suc.prems(2) by simp
  ultimately obtain nxt' where
    "sampling_loop tt tok sp la lo t0 (c + 500) smps
           \<lparr>script = concat (replicate k stalled_tick) @ rest, clock = c + 20100,
            trace = tr @ stalled_events\<rparr>
       = sampling_loop tt tok sp la lo t0 nxt' smps
           \<lparr>script = rest, clock = c + 20100 + k * 20100,
            trace = (tr @ stalled_events) @ concat (replicate k stalled_events)\<rparr>"
    using Suc.IH [of "c + 500" "c + 20100" "tr @ stalled_events"] by blast
  then show ?case using step by (auto simp: algebra_simps)
qed

lemmas score_defs = save_and_score_def summarize_def first_sample_def update_progress_def
  session_start_def Let_def


section \<open>Completion detector\<close>




section \<open>Missed reads\<close>

text \<open>
  C2 (amended). The sampler does not track missed reads. A tick whose read fails leaves
  the samples as they are, and the loop is left only by the check on the latest sample or
  at the timeout: a run without any sample always runs to the timeout, the loop is never
  left as timed out before the timeout has passed, and when it is left otherwise there is
  a latest sample on which the check did not return false.
\<close>

theorem missed_reads_never_end_sampling:
  assumes "sampling_loop tt tok sp la lo t0 nxt [] s = ((ex, out), s')"
  shows "(out = [] \<longrightarrow> ex = TimedOut) \<and>
         (ex = TimedOut \<longrightarrow> t0 + TEST_TIMEOUT \<le> clock s') \<and>
         (ex \<noteq> TimedOut \<longrightarrow> out \<noteq> [] \<and> check_termination tt [last out] \<noteq> Inr False) \<and>
         (\<forall>nxt' smps w. fst (collect_sample tok sp la lo t0 w) = None
            \<longrightarrow> fst (fst (sample_tick tok sp la lo t0 nxt' smps w)) = smps)"
proof (intro conjI allI impI)
  assume "out = []"
  then have "check_termination tt out = Inr False" by (simp add: check_termination_Nil)
  then show "ex = TimedOut" using loop_exit_check [OF assms] by (cases ex) simp_all
next
  assume "ex = TimedOut"
  then show "t0 + TEST_TIMEOUT \<le> clock s'" by (rule loop_exit_facts(5) [OF assms])
next
  assume n: "ex \<noteq> TimedOut"
  then have c: "check_termination tt out \<noteq> Inr False"
    using loop_exit_check [OF assms] by (cases ex) simp_all
  then show "out \<noteq> []" using check_termination_Nil [of tt] by auto
  then show "check_termination tt [last out] \<noteq> Inr False"
    using c check_termination_last [of out tt] by simp
next
  fix nxt' smps w
  assume "fst (collect_sample tok sp la lo t0 w) = None"
  then show "fst (fst (sample_tick tok sp la lo t0 nxt' smps w)) = smps"
    by (cases "collect_sample tok sp la lo t0 w") (simp add: sample_tick_def)
qed

theorem missed_reads_witness:
  "fst (sampling_loop autoDrop (JStr ''jwt'') start_position (JNum 43.6) (JNum (-79.4)) 5850 6350 []
          (after_command autoDrop [])) = (TimedOut, [])
   \<and> 605850 \<le> clock (snd (sampling_loop autoDrop (JStr ''jwt'') start_position (JNum 43.6)
          (JNum (-79.4)) 5850 6350 [] (after_command autoDrop [])))"
proof -
  let ?L = "sampling_loop autoDrop (JStr ''jwt'') start_position (JNum 43.6) (JNum (-79.4)) 5850 6350 []
          (after_command autoDrop [])"
  have f: "fst ?L = (TimedOut, [])"
    by (rule dead_network_times_out) (simp_all add: after_command_def check_termination_def)
  then have l: "?L = ((TimedOut, []), snd ?L)" by (metis prod.collapse)
  from missed_reads_never_end_sampling [OF l]
  have "5850 + TEST_TIMEOUT \<le> clock (snd ?L)" by simp
  then show ?thesis using f by (simp add: TEST_TIMEOUT_def)
qed

text \<open>
  The claim as first stated fails: after one sample below the target scope, 30 ticks in a
  row fail, each read running into its 5 s timeout. The run is not ended early; it runs to
  the timeout, 609.85 s after the start of the test, and is counted as passed.
\<close>

theorem stalled_run_runs_to_the_timeout:
  "sampling_loop autoDrop (JStr ''jwt'') start_position (JNum 43.6) (JNum (-79.4)) 5850 6350 []
      (after_command autoDrop (tick (Body (Some unconverged)) @ concat (replicate 30 stalled_tick)))
     = ((TimedOut, [first_sample (Some unconverged)]),
        \<lparr>script = [], clock = 609850,
         trace = trace (after_command autoDrop []) @ first_tick_events @ [Sleep 100, Sleep 100]
                 @ concat (replicate 30 stalled_events)\<rparr>)
   \<and> tests_passed (fst (snd (run_test 1 8 3 autoDrop session_start
        (world0 (prelude (Body None) @ tick (Body (Some unconverged))
                 @ concat (replicate 30 stalled_tick)))))) = 1
   \<and> tests_failed (fst (snd (run_test 1 8 3 autoDrop session_start
        (world0 (prelude (Body None) @ tick (Body (Some unconverged))
                 @ concat (replicate 30 stalled_tick)))))) = 0"
proof -
  let ?stall = "concat (replicate 30 stalled_tick)"
  let ?sm = "first_sample (Some unconverged)"
  let ?loop = "sampling_loop autoDrop (JStr ''jwt'') start_position (JNum 43.6) (JNum (-79.4)) 5850"
  let ?tr = "trace (after_command autoDrop []) @ first_tick_events"
  have c: "check_termination autoDrop [?sm] = Inr False"
    by (simp add: check_termination_def first_sample_def unconverged_def)
  have "(2.5::real) < 5" by simp
  from first_tick_unconverged [OF this, of ?stall]
  have 1: "?loop 6350 [] (after_command autoDrop (tick (Body (Some unconverged)) @ ?stall))
         = ?loop 6850 [?sm] \<lparr>script = ?stall, clock = 6650, trace = ?tr\<rparr>"
    by (simp add: unconverged_def)
  have 2: "?loop 6850 [?sm] \<lparr>script = ?stall, clock = 6650, trace = ?tr\<rparr>
         = ?loop 6850 [?sm] \<lparr>script = ?stall, clock = 6750, trace = ?tr @ [Sleep 100]\<rparr>"
    using sampling_loop_wait [OF c, of 6650 6850 5850 "JStr ''jwt''" start_position
        "JNum 43.6" "JNum (-79.4)" ?stall ?tr]
    by (simp add: TEST_TIMEOUT_def)
  have 3: "?loop 6850 [?sm] \<lparr>script = ?stall, clock = 6750, trace = ?tr @ [Sleep 100]\<rparr>
         = ?loop 6850 [?sm] \<lparr>script = ?stall, clock = 6850, trace = ?tr @ [Sleep 100, Sleep 100]\<rparr>"
    using sampling_loop_wait [OF c, of 6750 6850 5850 "JStr ''jwt''" start_position
        "JNum 43.6" "JNum (-79.4)" ?stall "?tr @ [Sleep 100]"]
    by (simp add: TEST_TIMEOUT_def)
  obtain nxt' where 4:
    "?loop 6850 [?sm] \<lparr>script = ?stall @ [], clock = 6850, trace = ?tr @ [Sleep 100, Sleep 100]\<rparr>
         = ?loop nxt' [?sm] \<lparr>script = [], clock = 6850 + 30 * 20100,
              trace = (?tr @ [Sleep 100, Sleep 100]) @ concat (replicate 30 stalled_events)\<rparr>"
    using stalled_ticks [OF c, of 6850 6850 30 5850 "JStr ''jwt''" start_position
        "JNum 43.6" "JNum (-79.4)" "[]" "?tr @ [Sleep 100, Sleep 100]"]
    by (auto simp: TEST_TIMEOUT_def)
  have 5: "?loop nxt' [?sm] \<lparr>script = [], clock = 6850 + 30 * 20100,
              trace = (?tr @ [Sleep 100, Sleep 100]) @ concat (replicate 30 stalled_events)\<rparr>
         = ((TimedOut, [?sm]), \<lparr>script = [], clock = 6850 + 30 * 20100,
              trace = (?tr @ [Sleep 100, Sleep 100]) @ concat (replicate 30 stalled_events)\<rparr>)"
    by (rule sampling_loop_timeout) (simp add: TEST_TIMEOUT_def)
  have l: "?loop 6350 [] (after_command autoDrop (tick (Body (Some unconverged)) @ ?stall))
     = ((TimedOut, [?sm]),
        \<lparr>script = [], clock = 609850,
         trace = ?tr @ [Sleep 100, Sleep 100] @ concat (replicate 30 stalled_events)\<rparr>)"
    using 1 2 3 4 5 by simp
  obtain td g' where sc: "save_and_score 1 8 3 autoDrop 5750 609850
        [?sm] (update_progress 1 RUNNING session_start) = (Inr (Some td), g')"
    and g: "tests_passed g' = 1" "tests_failed g' = 0"
    by (simp add: score_defs unconverged_def)
  have "run_test 1 8 3 autoDrop session_start
        (world0 (prelude (Body None) @ tick (Body (Some unconverged)) @ ?stall))
        = (Inr (Some td), g', \<lparr>script = [], clock = 609850,
         trace = ?tr @ [Sleep 100, Sleep 100] @ concat (replicate 30 stalled_events)\<rparr>)"
    by (simp only: run_test_after_prelude l sc prod.case world.select_convs)
  then show ?thesis using l g by simp
qed

section \<open>Scoring\<close>




section \<open>Persisted records\<close>



section \<open>Session counters\<close>

text \<open>
  C4. After every test case of the matrix, and at the end of \<^verbatim>\<open>run_all_tests\<close>, the
  counters that started at 0 satisfy completed = passed + failed, and completed is at most
  the size of the matrix, which is 6 wind speeds times 4 depths times 2 test types.
\<close>

theorem session_counters_invariant:
  "tests_completed (fst (snd (run_tests 1 (take k test_matrix) session_start s)))
     = tests_passed (fst (snd (run_tests 1 (take k test_matrix) session_start s)))
       + tests_failed (fst (snd (run_tests 1 (take k test_matrix) session_start s)))
   \<and> tests_completed (fst (snd (run_tests 1 (take k test_matrix) session_start s))) \<le> total_tests
   \<and> tests_completed (fst (snd (run_all_tests s)))
     = tests_passed (fst (snd (run_all_tests s))) + tests_failed (fst (snd (run_all_tests s)))
   \<and> tests_completed (fst (snd (run_all_tests s))) \<le> total_tests
   \<and> total_tests = 6 * 4 * 2"
proof -
  have "tests_completed session_start = tests_passed session_start + tests_failed session_start"
    by (simp add: session_start_def)
  from run_tests_counters [OF this, of 1 "take k test_matrix" s]
  have "tests_completed (fst (snd (run_tests 1 (take k test_matrix) session_start s)))
     = tests_passed (fst (snd (run_tests 1 (take k test_matrix) session_start s)))
       + tests_failed (fst (snd (run_tests 1 (take k test_matrix) session_start s)))
   \<and> tests_completed (fst (snd (run_tests 1 (take k test_matrix) session_start s))) \<le> total_tests"
    using length_test_matrix by (simp add: session_start_def)
  moreover have "total_tests = 6 * 4 * 2"
    by (simp add: total_tests_def WIND_SPEEDS_def DEPTHS_def TEST_TYPES_def)
  ultimately show ?thesis using run_all_tests_counters [of s] by simp
qed

theorem session_counters_witness:
  "tests_completed (fst (snd (run_tests 1 (take 1 test_matrix) session_start (world0 [])))) = 1
   \<and> tests_failed (fst (snd (run_tests 1 (take 1 test_matrix) session_start (world0 [])))) = 1
   \<and> tests_passed (fst (snd (run_tests 1 (take 1 test_matrix) session_start (world0 [])))) = 0"
proof -
  have t: "take 1 test_matrix = [(4, 3, autoDrop)]"
    by (simp add: test_matrix_def WIND_SPEEDS_def DEPTHS_def TEST_TYPES_def)
  have "run_tests 1 [(4, 3, autoDrop)] session_start (world0 [])
          = (Inr (), fail_test (update_progress 1 RUNNING session_start),
             sleep 2000 (snd (get_auth_token (world0 []))))"
    by (simp add: run_test_def get_auth_token_def request_def world0_def)
  then show ?thesis
    using session_counters_invariant [of 1 "world0 []"] t
    by (simp add: fail_test_def session_start_def update_progress_def)
qed

section \<open>Failures of a phase\<close>

text \<open>
  C7 (amended). When a phase before sampling fails, that is when the login gives no token,
  the device is not reachable, the stop or the reset script cannot be run, the
  configuration is refused, the start position cannot be read, or the reply to the command
  has an \<^verbatim>\<open>error\<close> entry, \<^verbatim>\<open>run_test\<close> returns \<^verbatim>\<open>None\<close> and counts the test as
  failed: failed and completed go up by one, passed stays, nothing is persisted. The
  matrix then goes on with the next test case after the 2 s pause.
\<close>

theorem failed_phase_is_scored_and_matrix_goes_on:
  assumes "get_auth_token s = (token, s1)"
    and "ensure_chain_controller s1 = (ok, s2)"
    and "stop_chain s2 = (stopped, s3)"
    and "(if stopped then reset_anchor s3 else (False, s3)) = (was_reset, s4)"
    and "configure_environment wind depth s4 = (configured, s5)"
    and "reset_simulation s5 = (sim_reset, s6)"
    and "get_position token (sleep 1000 s6) = (start_pos, s8)"
    and "send_command token tt s8 = (result, s9)"
    and "\<not> truthy token \<or> \<not> ok \<or> \<not> stopped \<or> \<not> was_reset \<or> \<not> configured \<or> \<not> truthy start_pos
         \<or> ((\<exists>la lo. subscript start_pos ''latitude'' = Inr la
                      \<and> subscript start_pos ''longitude'' = Inr lo)
             \<and> has_error result = Inr True)"
  shows "(\<exists>s'. run_test n wind depth tt g s
                 = (Inr None, fail_test (update_progress n RUNNING g), s')
              \<and> run_tests n ((wind, depth, tt) # rest) g s
                 = run_tests (n + 1) rest (fail_test (update_progress n RUNNING g)) (sleep 2000 s'))
         \<and> tests_failed (fail_test (update_progress n RUNNING g)) = tests_failed g + 1
         \<and> tests_completed (fail_test (update_progress n RUNNING g)) = tests_completed g + 1
         \<and> tests_passed (fail_test (update_progress n RUNNING g)) = tests_passed g
         \<and> saved (fail_test (update_progress n RUNNING g)) = saved g"
proof -
  have "\<exists>s'. run_test n wind depth tt g s = (Inr None, fail_test (update_progress n RUNNING g), s')"
    using assms by (auto simp: run_test_def Let_def split: if_splits)
  then obtain s' where
    r: "run_test n wind depth tt g s = (Inr None, fail_test (update_progress n RUNNING g), s')"
    by blast
  have "run_tests n ((wind, depth, tt) # rest) g s
          = run_tests (n + 1) rest (fail_test (update_progress n RUNNING g)) (sleep 2000 s')"
    by (rule run_tests_proceeds [OF r])
  then show ?thesis using r by (auto simp: fail_test_def)
qed

theorem failed_phase_witness:
  "\<exists>s'. run_test 1 4 3 autoDrop session_start (world0 [])
           = (Inr None, fail_test (update_progress 1 RUNNING session_start), s')
        \<and> run_tests 1 [(4, 3, autoDrop), (4, 3, autoRetrieve)] session_start (world0 [])
           = run_tests 2 [(4, 3, autoRetrieve)] (fail_test (update_progress 1 RUNNING session_start))
               (sleep 2000 s')"
proof -
  let ?s = "world0 []"
  let ?s1 = "snd (get_auth_token ?s)"
  let ?s2 = "snd (ensure_chain_controller ?s1)"
  let ?s3 = "snd (stop_chain ?s2)"
  let ?st = "fst (stop_chain ?s2)"
  let ?r4 = "if ?st then reset_anchor ?s3 else (False, ?s3)"
  let ?s5 = "snd (configure_environment 4 3 (snd ?r4))"
  let ?s6 = "snd (reset_simulation ?s5)"
  let ?p = "get_position JNull (sleep 1000 ?s6)"
  have tok: "get_auth_token ?s = (JNull, ?s1)"
    by (simp add: get_auth_token_def request_def world0_def)
  have "\<not> truthy JNull" by simp
  then have f: "\<not> truthy JNull \<or> \<not> fst (ensure_chain_controller ?s1) \<or> \<not> ?st \<or> \<not> fst ?r4
      \<or> \<not> fst (configure_environment 4 3 (snd ?r4)) \<or> \<not> truthy (fst ?p)
      \<or> ((\<exists>la lo. subscript (fst ?p) ''latitude'' = Inr la \<and> subscript (fst ?p) ''longitude'' = Inr lo)
          \<and> has_error (fst (send_command JNull autoDrop (snd ?p))) = Inr True)"
    by blast
  from failed_phase_is_scored_and_matrix_goes_on [OF tok prod.collapse [symmetric]
      prod.collapse [symmetric] prod.collapse [symmetric] prod.collapse [symmetric]
      prod.collapse [symmetric] prod.collapse [symmetric] prod.collapse [symmetric] f,
      of 1 session_start "[(4, 3, autoRetrieve)]"]
  show ?thesis by (simp add: numeral_2_eq_2)
qed

text \<open>
  The claim as first stated fails in two ways. A failed simulation reset, which belongs
  to the configuration phase, is not scored as a failure: the run goes on and is counted
  as passed. And an error can leave \<^verbatim>\<open>run_test\<close> and end the whole session: when the
  start position comes without a latitude, the \<^verbatim>\<open>KeyError\<close> is caught nowhere, no test
  is counted and none of the 48 test cases is completed.
\<close>

theorem failed_phase_counterexample:
  "fst (reset_simulation (world0 [ok_login, (50, Raises (HTTPError 500))])) = False
   \<and> (\<exists>td g'. run_test 1 8 3 autoDrop session_start
          (world0 (prelude (Raises (HTTPError 500)) @ tick (Body (Some converged))))
        = (Inr (Some td), g',
           \<lparr>script = [], clock = 6650,
            trace = trace (after_command autoDrop []) @ first_tick_events\<rparr>)
       \<and> tests_passed g' = 1 \<and> tests_failed g' = 0
       \<and> map_option p_status (progress g') = Some DONE)
   \<and> run_all_tests
        (world0 [(50, Body None), ok_login, ok_login, live_rode,
                 ok_login, ok_login, live_rode, script_done, script_done, ok_login,
                 config_applied, ok_login, (50, Body None),
                 (50, Body (Some (JObj [(''longitude'', JNum (-79.4))]))), command_accepted])
      = (Inl KeyError,
         \<lparr>tests_completed = 0, tests_passed = 0, tests_failed = 0,
          progress = Some \<lparr>p_test_num = 1, p_status = RUNNING, p_completed = 0, p_passed = 0,
                          p_failed = 0\<rparr>,
          saved = []\<rparr>,
         \<lparr>script = [command_accepted], clock = 6000,
          trace = [Request SignalkRoot, Request Login, Request Login, Request RodeDeployed,
                   Request Login, Request Login, Request RodeDeployed, Request StopChainScript,
                   Sleep 1000, Request ResetAnchorScript, Sleep 3000, Request Login,
                   Request (SimConfig 4 3), Request Login, Request SimReset, Sleep 1000,
                   Request Position]\<rparr>)"
proof -
  have a: "fst (reset_simulation (world0 [ok_login, (50, Raises (HTTPError 500))])) = False"
    by (simp add: reset_simulation_def get_auth_token_def request_def world0_def ok_login_def)
  have "(5::real) \<le> 5.2" by simp
  from first_tick_converged [OF this, of "[]"]
  have l: "sampling_loop autoDrop (JStr ''jwt'') start_position (JNum 43.6) (JNum (-79.4)) 5850 6350 []
     (after_command autoDrop (tick (Body (Some converged))))
   = ((Completed, [first_sample (Some converged)]),
      \<lparr>script = [], clock = 6650, trace = trace (after_command autoDrop []) @ first_tick_events\<rparr>)"
    by (simp add: converged_def)
  obtain td g' where sc: "save_and_score 1 8 3 autoDrop 5750 6650
        [first_sample (Some converged)] (update_progress 1 RUNNING session_start) = (Inr (Some td), g')"
    and g: "tests_passed g' = 1" "tests_failed g' = 0"
      "map_option p_status (progress g') = Some DONE"
    by (simp add: score_defs converged_def)
  have b: "run_test 1 8 3 autoDrop session_start
          (world0 (prelude (Raises (HTTPError 500)) @ tick (Body (Some converged))))
        = (Inr (Some td), g',
           \<lparr>script = [], clock = 6650,
            trace = trace (after_command autoDrop []) @ first_tick_events\<rparr>)"
    by (simp only: run_test_after_prelude l sc prod.case world.select_convs)
  have m: "test_matrix = (4, 3, autoDrop) # tl test_matrix"
    by (simp add: test_matrix_def WIND_SPEEDS_def DEPTHS_def TEST_TYPES_def)
  have c: "run_all_tests
        (world0 [(50, Body None), ok_login, ok_login, live_rode,
                 ok_login, ok_login, live_rode, script_done, script_done, ok_login,
                 config_applied, ok_login, (50, Body None),
                 (50, Body (Some (JObj [(''longitude'', JNum (-79.4))]))), command_accepted])
      = (Inl KeyError,
         \<lparr>tests_completed = 0, tests_passed = 0, tests_failed = 0,
          progress = Some \<lparr>p_test_num = 1, p_status = RUNNING, p_completed = 0, p_passed = 0,
                          p_failed = 0\<rparr>,
          saved = []\<rparr>,
         \<lparr>script = [command_accepted], clock = 6000,
          trace = [Request SignalkRoot, Request Login, Request Login, Request RodeDeployed,
                   Request Login, Request Login, Request RodeDeployed, Request StopChainScript,
                   Sleep 1000, Request ResetAnchorScript, Sleep 3000, Request Login,
                   Request (SimConfig 4 3), Request Login, Request SimReset, Sleep 1000,
                   Request Position]\<rparr>)"
    unfolding run_all_tests_def
    by (subst m)
       (simp add: verify_server_def prelude_defs ok_login_def live_rode_def
          script_done_def config_applied_def world0_def session_start_def update_progress_def)
  show ?thesis using a b c g by blast
qed

end
